theory Spec2Isabelle
  imports Complex_Main "HOL-Library.AList"
begin

section \<open>Pareto dominance, nearest-point contribution and multi-source aggregation\<close>

text \<open>
  The development embeds two Python modules:
  \<^item> \<^verbatim>\<open>llm4ad/method/momcts/utils.py\<close>: \<^verbatim>\<open>dominates\<close> and
    \<^verbatim>\<open>hypervolume_contribution\<close>;
  \<^item> \<^verbatim>\<open>analysis/plot_pareto_front.py\<close>: \<^verbatim>\<open>compare_pareto_from_algorithms\<close>.

  Python floats are idealised as the type \<^typ>\<open>real\<close>: comparisons, subtraction, squares
  and square roots are the exact ones, and there is no NaN or infinity. Python lists are
  HOL lists; a two-dimensional numpy array is the list of its rows, and the array
  \<^verbatim>\<open>np.array([])\<close>, of shape \<open>(0,)\<close>, is the empty list. Every exception the embedded
  code can raise is a value \<open>Inl e\<close> of a sum type.
\<close>

text \<open>
  \<open>ValueError (Some msg)\<close> is a \<open>ValueError\<close> that the embedded code raises itself,
  with its message; \<open>ValueError None\<close> is a \<open>ValueError\<close> raised inside Python or numpy,
  whose text belongs to the library.
\<close>

datatype py_error = IndexError | KeyError | ValueError "string option"

text \<open>
  The only \<^verbatim>\<open>raise\<close> statement of the two modules is line 94 of
  \<^verbatim>\<open>plot_pareto_front.py\<close>. Its message is the character U+274C (a cross mark, the bytes
  \<open>E2 9D 8C\<close> in UTF-8), a space, and \<^verbatim>\<open>No valid data found across algorithms.\<close>
\<close>

definition no_valid_data_message :: string where
  "no_valid_data_message =
     [CHR 0xE2, CHR 0x9D, CHR 0x8C] @ '' No valid data found across algorithms.''"

definition no_valid_data :: py_error where
  "no_valid_data = ValueError (Some no_valid_data_message)"

subsection \<open>\<^verbatim>\<open>dominates\<close>\<close>

text \<open>
  \<^verbatim>\<open>
  def dominates(objective_a, objective_b):
      is_strictly_better = False
      for i in range(len(objective_a)):
          if objective_a[i] > objective_b[i]:
              return False
          if objective_a[i] < objective_b[i]:
              is_strictly_better = True
      return is_strictly_better
  \<close>
  The loop runs over the indices of \<open>objective_a\<close> only. Reading \<open>objective_b[i]\<close>
  with \<open>i\<close> beyond the end of \<open>objective_b\<close> raises \<open>IndexError\<close>; there is no other
  check of the lengths.
\<close>

function dominates_loop :: "real list \<Rightarrow> real list \<Rightarrow> nat \<Rightarrow> bool \<Rightarrow> py_error + bool" where
  "dominates_loop objective_a objective_b i is_strictly_better =
     (if i < length objective_a then
        (if i < length objective_b then
           (if objective_a ! i > objective_b ! i then Inr False
            else dominates_loop objective_a objective_b (Suc i)
                   (if objective_a ! i < objective_b ! i then True else is_strictly_better))
         else Inl IndexError)
      else Inr is_strictly_better)"
  by pat_completeness auto
termination
  by (relation "measure (\<lambda>(a, b, i, s). length a - i)") auto

declare dominates_loop.simps [simp del]

definition dominates :: "real list \<Rightarrow> real list \<Rightarrow> py_error + bool" where
  "dominates objective_a objective_b = dominates_loop objective_a objective_b 0 False"

subsection \<open>\<^verbatim>\<open>hypervolume_contribution\<close>\<close>

text \<open>
  The class \<^verbatim>\<open>Function\<close> comes from \<^verbatim>\<open>llm4ad.base\<close>; the code reads only its
  attribute \<^verbatim>\<open>score\<close>, the objective vector of an evaluated solution.
\<close>

record Function =
  score :: "real list"

text \<open>
  \<^verbatim>\<open>[(objective[i] - other.score[i])**2 for i in range(len(objective))]\<close>:
  the comprehension raises \<open>IndexError\<close> exactly when \<open>other.score\<close> is shorter than
  \<open>objective\<close>, and ignores the coordinates of a longer score.
\<close>

definition squared_differences :: "real list \<Rightarrow> real list \<Rightarrow> py_error + real list" where
  "squared_differences objective other_score =
     (if length other_score < length objective then Inl IndexError
      else Inr (map (\<lambda>i. (objective ! i - other_score ! i)\<^sup>2) [0..<length objective]))"

text \<open>
  The list \<^verbatim>\<open>distances\<close>, one entry per frontier point in order; \<^verbatim>\<open>x ** 0.5\<close> on a
  sum of squares is its square root.
\<close>

fun distances :: "real list \<Rightarrow> Function list \<Rightarrow> py_error + real list" where
  "distances objective [] = Inr []"
| "distances objective (other # rest) =
     (case squared_differences objective (score other) of
        Inl e \<Rightarrow> Inl e
      | Inr sq \<Rightarrow>
          (case distances objective rest of
             Inl e \<Rightarrow> Inl e
           | Inr ds \<Rightarrow> Inr (sqrt (sum_list sq) # ds)))"

text \<open>Python's \<^verbatim>\<open>min\<close> of a list: \<open>ValueError\<close> on the empty list, else the first least item.\<close>

fun py_min :: "real list \<Rightarrow> py_error + real" where
  "py_min [] = Inl (ValueError None)"
| "py_min (d # ds) = Inr (fold (\<lambda>x m. if x < m then x else m) ds d)"

definition hypervolume_contribution :: "real list \<Rightarrow> Function list \<Rightarrow> py_error + real" where
  "hypervolume_contribution objective pareto_front =
     (if pareto_front = [] then Inr 0
      else (case distances objective pareto_front of
              Inl e \<Rightarrow> Inl e
            | Inr ds \<Rightarrow> py_min ds))"

subsection \<open>\<^verbatim>\<open>compare_pareto_from_algorithms\<close>: collaborators\<close>

type_synonym scores = "real list list"

text \<open>
  Modelled from the spec: \<^verbatim>\<open>read_score_from_path\<close> (module \<^verbatim>\<open>utils\<close> of the
  analysis directory) is the score source collaborator: it "supplies, for a given
  file/path identifier, an ordered sequence of ObjectiveVectors" and "returns an empty
  sequence (not an error) when no valid rows exist at that identifier". The persisted
  storage is a map from paths to the rows stored there.
\<close>

definition read_score_from_path :: "(string \<rightharpoonup> scores) \<Rightarrow> string \<Rightarrow> scores" where
  "read_score_from_path storage file_path =
     (case storage file_path of None \<Rightarrow> [] | Some rows \<Rightarrow> rows)"

text \<open>
  Modelled from the spec: the dominance of section 4.1 between two rows of one array,
  "a[i] \<le> b[i] for all i and a[i] < b[i] for some i", as it is used by the two frontier
  extractors below, whose code is outside this module.
\<close>

definition row_dominates :: "real list \<Rightarrow> real list \<Rightarrow> bool" where
  "row_dominates w v \<longleftrightarrow> list_all2 (\<le>) w v \<and> list_ex (\<lambda>(x, y). x < y) (zip w v)"

text \<open>
  Modelled from the spec: \<^verbatim>\<open>NonDominatedSorting().do(F, only_non_dominated_front=True)\<close>
  (library \<^verbatim>\<open>pymoo\<close>) gives the indices of the rows of \<open>F\<close> that no row of \<open>F\<close> dominates
  (section 4.2: "a vector v is retained iff no other vector w in the input dominates it";
  rows with identical coordinates are all kept; the order of the input is kept).
\<close>

definition non_dominated_indices :: "scores \<Rightarrow> nat list" where
  "non_dominated_indices F =
     filter (\<lambda>i. \<not> list_ex (\<lambda>w. row_dominates w (F ! i)) F) [0..<length F]"

text \<open>
  Modelled from the spec: \<^verbatim>\<open>find_pareto_front_from_scores\<close> (module \<^verbatim>\<open>utils\<close> of the
  analysis directory) is the frontier extractor of section 4.2; "empty input yields an
  empty Frontier".
\<close>

definition find_pareto_front_from_scores :: "scores \<Rightarrow> scores" where
  "find_pareto_front_from_scores algo_scores =
     map (\<lambda>i. algo_scores ! i) (non_dominated_indices algo_scores)"

text \<open>
  \<^verbatim>\<open>np.allclose(score, point, atol=1e-8)\<close> on two rows of one array. Numpy documents the
  test as \<open>|a - b| \<le> atol + rtol * |b|\<close> on every coordinate, and the call leaves
  \<open>rtol\<close> at its default \<open>1e-5\<close>.
\<close>

definition rtol_default :: real where
  "rtol_default = 1 / 100000"

definition np_allclose :: "real list \<Rightarrow> real list \<Rightarrow> real \<Rightarrow> bool" where
  "np_allclose a b atol \<longleftrightarrow> list_all2 (\<lambda>x y. \<bar>x - y\<bar> \<le> atol + rtol_default * \<bar>y\<bar>) a b"

definition attribution_atol :: real where
  "attribution_atol = 1 / 100000000"

text \<open>
  The test the specification describes for the attribution step, in its own words:
  "coordinate-wise absolute-difference comparison against a fixed epsilon" (section 9),
  "within an absolute tolerance (recommended 1e-8 per coordinate)" (section 4.4). It is
  the reference the code's test is compared with, and is not used by the code.
\<close>

definition spec_within_absolute_tolerance :: "real list \<Rightarrow> real list \<Rightarrow> real \<Rightarrow> bool" where
  "spec_within_absolute_tolerance a b eps \<longleftrightarrow> list_all2 (\<lambda>x y. \<bar>x - y\<bar> \<le> eps) a b"

text \<open>
  The slice \<^verbatim>\<open>xs[:k]\<close> of Python: the first \<open>k\<close> items for \<open>k \<ge> 0\<close>, and all but
  the last \<open>-k\<close> items for a negative \<open>k\<close>.
\<close>

definition py_prefix :: "'a list \<Rightarrow> int \<Rightarrow> 'a list" where
  "py_prefix xs k = (if 0 \<le> k then take (nat k) xs else take (nat (int (length xs) + k)) xs)"

text \<open>
  \<^verbatim>\<open>if max_fe is not None: algo_scores = algo_scores[:max_fe]\<close>
\<close>

definition limit_scores :: "int option \<Rightarrow> scores \<Rightarrow> scores" where
  "limit_scores max_fe algo_scores =
     (case max_fe of None \<Rightarrow> algo_scores | Some k \<Rightarrow> py_prefix algo_scores k)"

text \<open>
  A Python \<^verbatim>\<open>dict\<close> is an association list in insertion order, with distinct keys.
  \<^verbatim>\<open>d[k] = v\<close> is \<^const>\<open>AList.update\<close> (replace in place, or append); \<^verbatim>\<open>d[k] = f(d[k])\<close>, as in
  \<^verbatim>\<open>d[k] += 1\<close> and \<^verbatim>\<open>d[k].append(p)\<close>, raises \<open>KeyError\<close> on a missing key.
\<close>

fun dict_modify :: "'k \<Rightarrow> ('v \<Rightarrow> 'v) \<Rightarrow> ('k \<times> 'v) list \<Rightarrow> py_error + ('k \<times> 'v) list" where
  "dict_modify k f [] = Inl KeyError"
| "dict_modify k f ((k', v) # rest) =
     (if k' = k then Inr ((k', f v) # rest)
      else (case dict_modify k f rest of
              Inl e \<Rightarrow> Inl e
            | Inr rest' \<Rightarrow> Inr ((k', v) # rest')))"

subsection \<open>\<^verbatim>\<open>compare_pareto_from_algorithms\<close>: arrays, reports and plots\<close>

text \<open>
  \<^verbatim>\<open>np.array(rows, dtype=float)\<close> raises \<open>ValueError\<close> when the rows have different
  lengths. Rows of one length \<open>c\<close> give an array of shape \<open>(n, c)\<close>, and no row at all
  gives the array of shape \<open>(0,)\<close>.
\<close>

definition same_row_lengths :: "scores \<Rightarrow> bool" where
  "same_row_lengths rows \<longleftrightarrow> list_all (\<lambda>r. list_all (\<lambda>r'. length r = length r') rows) rows"

definition np_array :: "scores \<Rightarrow> py_error + scores" where
  "np_array rows = (if same_row_lengths rows then Inr rows else Inl (ValueError None))"

text \<open>
  The number of columns of an array: \<open>None\<close> for the one-dimensional array of shape
  \<open>(0,)\<close>, which has no second axis.
\<close>

definition ncols :: "scores \<Rightarrow> nat option" where
  "ncols arr = (case arr of [] \<Rightarrow> None | row # _ \<Rightarrow> Some (length row))"

text \<open>
  \<^verbatim>\<open>front[:, j]\<close>, where \<open>front\<close> is a selection of rows of the array \<open>arr\<close> and so has
  its number of axes and of columns: \<open>IndexError\<close> when there is no second axis, or no
  column \<open>j\<close>.
\<close>

definition column_slice :: "scores \<Rightarrow> scores \<Rightarrow> nat \<Rightarrow> py_error + real list" where
  "column_slice arr front j =
     (case ncols arr of
        None \<Rightarrow> Inl IndexError
      | Some c \<Rightarrow> if j < c then Inr (map (\<lambda>row. row ! j) front) else Inl IndexError)"

text \<open>
  What the code does with a front \<open>front\<close> selected from the array \<open>arr\<close>, for the local
  fronts (lines 63 to 87) and for the global front (lines 119 to 152), as far as it can
  raise:
  \<^verbatim>\<open>
  for i, point in enumerate(front):
      print(f"    {i+1:2d}: [{point[0]:.6f}, {point[1]:.6f}]")
  scatter = plt.scatter(front[:, 0], front[:, 1], ...)
  if show_point_label:
      for (x, y) in front:
          plt.annotate(...)
  \<close>
  \<open>point[1]\<close> raises \<open>IndexError\<close> on a point with fewer than two coordinates, the
  slices raise \<open>IndexError\<close> as described, and unpacking a row into \<open>(x, y)\<close> raises
  \<open>ValueError\<close> unless the row has exactly two coordinates. Between the two parts the
  global analysis prints the contribution summary (lines 122 to 127), which under
  \<open>print_point\<close> reads \<open>p[0]\<close> and \<open>p[1]\<close> of points that line 120 has read before.
\<close>

definition report_front :: "scores \<Rightarrow> scores \<Rightarrow> bool \<Rightarrow> py_error + unit" where
  "report_front arr front show_point_label =
     (if list_ex (\<lambda>point. length point < 2) front then Inl IndexError
      else (case column_slice arr front 0 of
              Inl e \<Rightarrow> Inl e
            | Inr xs \<Rightarrow>
                (case column_slice arr front 1 of
                   Inl e \<Rightarrow> Inl e
                 | Inr ys \<Rightarrow>
                     if show_point_label \<and> list_ex (\<lambda>row. length row \<noteq> 2) front
                     then Inl (ValueError None)
                     else Inr ())))"

text \<open>
  \<^verbatim>\<open>np.vstack(arrays)\<close>: every array is first made two-dimensional, which turns the array
  of shape \<open>(0,)\<close> into one row without columns; then the rows are stacked, and
  \<open>ValueError\<close> is raised when the numbers of columns differ, or when there is no array.
\<close>

definition atleast_2d :: "scores \<Rightarrow> scores" where
  "atleast_2d arr = (if arr = [] then [[]] else arr)"

definition np_vstack :: "scores list \<Rightarrow> py_error + scores" where
  "np_vstack arrays =
     (let rows = concat (map atleast_2d arrays)
      in if arrays = [] \<or> \<not> same_row_lengths rows then Inl (ValueError None) else Inr rows)"

subsection \<open>\<^verbatim>\<open>compare_pareto_from_algorithms\<close>: step 1, the local fronts\<close>

text \<open>
  \<^verbatim>\<open>
  algo_scores = []
  for file_path in file_list:
      scores = read_score_from_path(file_path)
      if len(scores) == 0:
          continue
      algo_scores.extend(scores)
  \<close>
\<close>

definition collect_algo_scores :: "(string \<rightharpoonup> scores) \<Rightarrow> string list \<Rightarrow> scores" where
  "collect_algo_scores storage file_list =
     foldl (\<lambda>algo_scores file_path.
              let scores = read_score_from_path storage file_path
              in if length scores = 0 then algo_scores else algo_scores @ scores)
       [] file_list"

text \<open>
  The variables the first loop builds. \<open>warned\<close> lists the algorithms for which the
  warning "No valid scores found" was printed.
\<close>

record local_analysis =
  algo_fronts :: "(string \<times> scores) list"
  all_scores :: "scores list"
  algo_labels :: "string list"
  warned :: "string list"

definition initial_analysis :: local_analysis where
  "initial_analysis = \<lparr>algo_fronts = [], all_scores = [], algo_labels = [], warned = []\<rparr>"

text \<open>
  One pass of \<^verbatim>\<open>for algo, file_list in file_dict.items()\<close> (lines 36 to 91). The test
  for an empty \<open>algo_scores\<close> (line 45) comes before the limit \<open>max_fe\<close> is applied (line
  51); a source that the limit empties goes on to line 54 and raises at line 68.
\<close>

fun local_pareto_analysis ::
  "(string \<rightharpoonup> scores) \<Rightarrow> int option \<Rightarrow> bool \<Rightarrow> (string \<times> string list) list \<Rightarrow>
   local_analysis \<Rightarrow> py_error + local_analysis" where
  "local_pareto_analysis storage max_fe show_point_label [] st = Inr st"
| "local_pareto_analysis storage max_fe show_point_label ((algo, file_list) # rest) st =
     (let algo_scores = collect_algo_scores storage file_list
      in if length algo_scores = 0
         then local_pareto_analysis storage max_fe show_point_label rest
                (st\<lparr>warned := warned st @ [algo]\<rparr>)
         else
           (case np_array (limit_scores max_fe algo_scores) of
              Inl e \<Rightarrow> Inl e
            | Inr algo_scores \<Rightarrow>
                (let pareto_front = find_pareto_front_from_scores algo_scores
                 in case report_front algo_scores pareto_front show_point_label of
                      Inl e \<Rightarrow> Inl e
                    | Inr _ \<Rightarrow>
                        local_pareto_analysis storage max_fe show_point_label rest
                          (st\<lparr>algo_fronts := AList.update algo pareto_front (algo_fronts st),
                              all_scores := all_scores st @ [algo_scores],
                              algo_labels :=
                                algo_labels st @ replicate (length algo_scores) algo\<rparr>))))"

subsection \<open>\<^verbatim>\<open>compare_pareto_from_algorithms\<close>: step 2, the global front\<close>

text \<open>
  \<^verbatim>\<open>
  for score, algo in zip(all_scores, algo_labels):
      if np.allclose(score, point, atol=1e-8):
          contribution_count[algo] += 1
          contribution_points[algo].append(point)
          break
  \<close>
\<close>

type_synonym attribution = "(string \<times> nat) list \<times> (string \<times> scores) list"

definition credit :: "string \<Rightarrow> real list \<Rightarrow> attribution \<Rightarrow> py_error + attribution" where
  "credit algo point attr =
     (case dict_modify algo (\<lambda>c. c + 1) (fst attr) of
        Inl e \<Rightarrow> Inl e
      | Inr contribution_count \<Rightarrow>
          (case dict_modify algo (\<lambda>ps. ps @ [point]) (snd attr) of
             Inl e \<Rightarrow> Inl e
           | Inr contribution_points \<Rightarrow> Inr (contribution_count, contribution_points)))"

fun attribute_point ::
  "real list \<Rightarrow> (real list \<times> string) list \<Rightarrow> attribution \<Rightarrow> py_error + attribution" where
  "attribute_point point [] attr = Inr attr"
| "attribute_point point ((score', algo) # rest) attr =
     (if np_allclose score' point attribution_atol then credit algo point attr
      else attribute_point point rest attr)"

text \<open>\<^verbatim>\<open>for point in global_pf: ...\<close>\<close>

fun attribute_points ::
  "scores \<Rightarrow> (real list \<times> string) list \<Rightarrow> attribution \<Rightarrow> py_error + attribution" where
  "attribute_points [] pooled attr = Inr attr"
| "attribute_points (point # rest) pooled attr =
     (case attribute_point point pooled attr of
        Inl e \<Rightarrow> Inl e
      | Inr attr' \<Rightarrow> attribute_points rest pooled attr')"

record global_analysis =
  global_pf :: scores
  contribution_count :: "(string \<times> nat) list"
  contribution_points :: "(string \<times> scores) list"

text \<open>
  The function itself returns nothing: it prints and draws what it computed. The model
  returns the computed variables, the data handed to printing and drawing, when no
  statement has raised. \<open>global\<close> is \<open>None\<close> when \<open>show_global\<close> is false. The plot
  settings of step 3 raise nothing. \<open>print_point\<close> changes only what is printed.
\<close>

record comparison =
  local :: local_analysis
  global :: "global_analysis option"

definition compare_pareto_from_algorithms ::
  "(string \<rightharpoonup> scores) \<Rightarrow> (string \<times> string list) list \<Rightarrow> bool \<Rightarrow> int option \<Rightarrow> bool \<Rightarrow>
   bool \<Rightarrow> py_error + comparison" where
  "compare_pareto_from_algorithms storage file_dict show_global max_fe show_point_label
     print_point =
     (case local_pareto_analysis storage max_fe show_point_label file_dict initial_analysis of
        Inl e \<Rightarrow> Inl e
      | Inr st \<Rightarrow>
          if all_scores st = [] then Inl no_valid_data
          else if show_global then
            (case np_vstack (all_scores st) of
               Inl e \<Rightarrow> Inl e
             | Inr stacked \<Rightarrow>
                 (let nd_idx = non_dominated_indices stacked;
                      pf = map (\<lambda>i. stacked ! i) nd_idx;
                      count0 = map (\<lambda>algo. (algo, 0)) (map fst file_dict);
                      points0 = map (\<lambda>algo. (algo, [])) (map fst file_dict)
                  in case attribute_points pf (zip stacked (algo_labels st)) (count0, points0) of
                       Inl e \<Rightarrow> Inl e
                     | Inr (cc, cp) \<Rightarrow>
                         (case report_front stacked pf show_point_label of
                            Inl e \<Rightarrow> Inl e
                          | Inr _ \<Rightarrow>
                              Inr \<lparr>local = st,
                                   global = Some \<lparr>global_pf = pf, contribution_count = cc,
                                                   contribution_points = cp\<rparr>\<rparr>)))
          else Inr \<lparr>local = st, global = None\<rparr>)"

section \<open>Properties of \<^verbatim>\<open>dominates\<close>\<close>

lemma dominates_loop_within:
  "length a \<le> length b \<Longrightarrow>
   dominates_loop a b i s =
     Inr ((\<forall>j. i \<le> j \<and> j < length a \<longrightarrow> a ! j \<le> b ! j) \<and>
          (s \<or> (\<exists>j. i \<le> j \<and> j < length a \<and> a ! j < b ! j)))"
proof (induction a b i s rule: dominates_loop.induct)
  case (1 a b i s)
  show ?case
  proof (cases "i < length a")
    case False
    then show ?thesis
      by (subst dominates_loop.simps) auto
  next
    case inside: True
    with "1.prems" have ib: "i < length b" by simp
    show ?thesis
    proof (cases "a ! i > b ! i")
      case True
      then have "\<not> (\<forall>j. i \<le> j \<and> j < length a \<longrightarrow> a ! j \<le> b ! j)"
        using inside by (metis le_refl not_le)
      with True inside ib show ?thesis
        by (subst dominates_loop.simps) simp
    next
      case False
      let ?s' = "if a ! i < b ! i then True else s"
      have step: "dominates_loop a b i s = dominates_loop a b (Suc i) ?s'"
        using inside ib False by (subst dominates_loop.simps) simp
      have ih: "dominates_loop a b (Suc i) ?s' =
          Inr ((\<forall>j. Suc i \<le> j \<and> j < length a \<longrightarrow> a ! j \<le> b ! j) \<and>
               (?s' \<or> (\<exists>j. Suc i \<le> j \<and> j < length a \<and> a ! j < b ! j)))"
        using "1.IH" [OF inside ib False] "1.prems" by simp
      have all_eq: "(\<forall>j. i \<le> j \<and> j < length a \<longrightarrow> a ! j \<le> b ! j) \<longleftrightarrow>
          (\<forall>j. Suc i \<le> j \<and> j < length a \<longrightarrow> a ! j \<le> b ! j)"
        using False by (metis Suc_leI Suc_leD le_neq_implies_less not_le)
      have ex_eq: "(s \<or> (\<exists>j. i \<le> j \<and> j < length a \<and> a ! j < b ! j)) \<longleftrightarrow>
          (?s' \<or> (\<exists>j. Suc i \<le> j \<and> j < length a \<and> a ! j < b ! j))"
        using inside by (metis Suc_leI Suc_leD le_neq_implies_less le_refl)
      show ?thesis
        unfolding step ih all_eq ex_eq ..
    qed
  qed
qed

lemma dominates_within:
  "length a \<le> length b \<Longrightarrow>
   dominates a b = Inr ((\<forall>j<length a. a ! j \<le> b ! j) \<and> (\<exists>j<length a. a ! j < b ! j))"
  unfolding dominates_def by (simp add: dominates_loop_within)

lemma dominates_loop_beyond:
  "length b < length a \<Longrightarrow> i \<le> length b \<Longrightarrow>
   dominates_loop a b i s =
     (if \<exists>j. i \<le> j \<and> j < length b \<and> a ! j > b ! j then Inr False else Inl IndexError)"
proof (induction a b i s rule: dominates_loop.induct)
  case (1 a b i s)
  from "1.prems" have inside: "i < length a" by simp
  show ?case
  proof (cases "i < length b")
    case False
    with inside show ?thesis
      by (subst dominates_loop.simps) auto
  next
    case ib: True
    show ?thesis
    proof (cases "a ! i > b ! i")
      case True
      with inside ib show ?thesis
        by (subst dominates_loop.simps) auto
    next
      case False
      let ?s' = "if a ! i < b ! i then True else s"
      have step: "dominates_loop a b i s = dominates_loop a b (Suc i) ?s'"
        using inside ib False by (subst dominates_loop.simps) simp
      have ih: "dominates_loop a b (Suc i) ?s' =
          (if \<exists>j. Suc i \<le> j \<and> j < length b \<and> a ! j > b ! j then Inr False else Inl IndexError)"
        using "1.IH" [OF inside ib False] "1.prems" ib by simp
      have ex_eq: "(\<exists>j. i \<le> j \<and> j < length b \<and> a ! j > b ! j) \<longleftrightarrow>
          (\<exists>j. Suc i \<le> j \<and> j < length b \<and> a ! j > b ! j)"
        using False by (metis Suc_leI Suc_leD le_neq_implies_less)
      show ?thesis
        unfolding step ih ex_eq ..
    qed
  qed
qed

text \<open>
  Claim C1. For two objective vectors of equal length, \<open>dominates a b\<close> returns true
  exactly when \<open>a[i] \<le> b[i]\<close> at every index and \<open>a[i] < b[i]\<close> at some index. In
  particular \<open>dominates a a\<close> is false, and \<open>dominates a b\<close> is false whenever some
  coordinate of \<open>a\<close> exceeds the one of \<open>b\<close>.
\<close>

theorem dominates_characterisation:
  assumes "length a = length b"
  shows "dominates a b = Inr ((\<forall>i<length a. a ! i \<le> b ! i) \<and> (\<exists>i<length a. a ! i < b ! i))
       \<and> dominates a a = Inr False
       \<and> ((\<exists>i<length a. a ! i > b ! i) \<longrightarrow> dominates a b = Inr False)"
proof -
  have main: "dominates a b = Inr ((\<forall>i<length a. a ! i \<le> b ! i) \<and> (\<exists>i<length a. a ! i < b ! i))"
    using assms by (simp add: dominates_within)
  have self: "dominates a a = Inr False"
    by (simp add: dominates_within)
  have exceed: "(\<exists>i<length a. a ! i > b ! i) \<longrightarrow> dominates a b = Inr False"
    unfolding main by (auto simp: not_le [symmetric])
  from main self exceed show ?thesis by blast
qed

theorem dominates_characterisation_witness:
  "length [1, 2 :: real] = length [1, 3 :: real]
   \<and> dominates [1, 2] [1, 3] = Inr True
   \<and> dominates [1, 2] [1, 2] = Inr False
   \<and> dominates [1, 3] [1, 2] = Inr False"
  using dominates_characterisation [of "[1, 2]" "[1, 3]"]
    dominates_characterisation [of "[1, 3]" "[1, 2]"]
  by (simp add: All_less_Suc Ex_less_Suc)

text \<open>
  Claim C9. For two objective vectors of equal length, \<open>dominates a b\<close> and
  \<open>dominates b a\<close> are never both true.
\<close>

theorem dominates_antisymmetric:
  assumes "length a = length b"
  shows "\<not> (dominates a b = Inr True \<and> dominates b a = Inr True)"
proof
  assume both: "dominates a b = Inr True \<and> dominates b a = Inr True"
  from both assms have ab: "\<forall>i<length a. a ! i \<le> b ! i"
    by (simp add: dominates_within)
  from both assms obtain i where i: "i < length a" "b ! i < a ! i"
    by (auto simp: dominates_within)
  with ab show False by (simp add: not_less [symmetric])
qed

theorem dominates_antisymmetric_witness:
  "length [1, 2 :: real] = length [1, 3 :: real]
   \<and> \<not> (dominates [1, 2] [1, 3] = Inr True \<and> dominates [1, 3] [1, 2] = Inr True)
   \<and> dominates [1, 2] [1, 3] = Inr True"
  using dominates_antisymmetric [of "[1, 2]" "[1, 3]"]
  by (simp add: dominates_def dominates_loop.simps)

text \<open>
  Claim C3 says that vectors of unequal length make \<open>dominates\<close> fail at once with an
  InvalidInput error. The code has no check of the lengths: with a shorter first vector
  it compares a prefix of the second and returns a verdict.
\<close>

theorem dominates_unequal_length_counterexample:
  "length [1 :: real] \<noteq> length [2, 3 :: real] \<and> dominates [1] [2, 3] = Inr True"
  by (simp add: dominates_def dominates_loop.simps)

text \<open>
  Claim C3, amended. For vectors of unequal length: when \<open>a\<close> is shorter than \<open>b\<close>,
  \<open>dominates a b\<close> is the dominance verdict of \<open>a\<close> against the first \<open>len(a)\<close>
  coordinates of \<open>b\<close>; when \<open>a\<close> is longer than \<open>b\<close>, it returns false if
  \<open>a[i] > b[i]\<close> at some index of \<open>b\<close>, and raises \<open>IndexError\<close> otherwise.
\<close>

theorem dominates_unequal_length:
  assumes "length a \<noteq> length b"
  shows "dominates a b =
     (if length a < length b
      then Inr ((\<forall>i<length a. a ! i \<le> b ! i) \<and> (\<exists>i<length a. a ! i < b ! i))
      else if \<exists>i<length b. a ! i > b ! i then Inr False
      else Inl IndexError)"
proof (cases "length a < length b")
  case True
  then show ?thesis by (simp add: dominates_within)
next
  case False
  with assms have "length b < length a" by simp
  then show ?thesis
    unfolding dominates_def by (simp add: dominates_loop_beyond)
qed

theorem dominates_unequal_length_witness:
  "length [1 :: real] \<noteq> length [2, 3 :: real]
   \<and> dominates [1, 5] [2] = Inl IndexError
   \<and> dominates [3, 5] [2] = Inr False"
  using dominates_unequal_length [of "[1]" "[2, 3]"]
    dominates_unequal_length [of "[1, 5]" "[2]"]
    dominates_unequal_length [of "[3, 5]" "[2]"]
  by simp

section \<open>Properties of \<^verbatim>\<open>hypervolume_contribution\<close>\<close>

lemma squared_differences_sum:
  "length c \<le> length sc \<Longrightarrow>
   squared_differences c sc = Inr sq \<Longrightarrow> sum_list sq = (\<Sum>i<length c. (c ! i - sc ! i)\<^sup>2)"
  by (auto simp: squared_differences_def interv_sum_list_conv_sum_set_nat atLeast0LessThan)

lemma distances_total:
  "\<forall>p\<in>set f. length c \<le> length (score p) \<Longrightarrow>
   distances c f = Inr (map (\<lambda>p. sqrt (\<Sum>i<length c. (c ! i - score p ! i)\<^sup>2)) f)"
proof (induction f)
  case Nil
  show ?case by simp
next
  case (Cons p f)
  then have len: "length c \<le> length (score p)" by simp
  then have sq: "squared_differences c (score p) =
      Inr (map (\<lambda>i. (c ! i - score p ! i)\<^sup>2) [0..<length c])"
    by (simp add: squared_differences_def)
  from Cons have rest: "distances c f =
      Inr (map (\<lambda>p. sqrt (\<Sum>i<length c. (c ! i - score p ! i)\<^sup>2)) f)"
    by simp
  show ?case
    using squared_differences_sum [OF len sq] by (simp add: sq rest)
qed

lemma distances_nonneg:
  "distances c f = Inr ds \<Longrightarrow> \<forall>d\<in>set ds. 0 \<le> d"
proof (induction f arbitrary: ds)
  case Nil
  then show ?case by simp
next
  case (Cons p f)
  then show ?case
    by (auto simp: squared_differences_def intro!: sum_list_nonneg split: sum.splits if_splits)
qed

lemma py_min_Min: "ds \<noteq> [] \<Longrightarrow> py_min ds = Inr (Min (set ds))"
proof (cases ds)
  case Nil
  assume "ds \<noteq> []"
  with Nil show ?thesis by simp
next
  case (Cons d rest)
  have "(\<lambda>x m :: real. if x < m then x else m) = min"
    by (auto simp: fun_eq_iff min_def)
  moreover have "fold min rest d = Min (set (d # rest))"
    by (simp only: Min.set_eq_fold)
  ultimately show ?thesis
    using Cons by (simp del: set_simps)
qed

text \<open>
  Claim C6. \<open>hypervolume_contribution x []\<close> is exactly 0 for every candidate \<open>x\<close>.
  For a non-empty frontier whose scores all have the candidate's length, the result is
  the least Euclidean distance \<open>sqrt (\<Sum>i. (candidate[i] - p[i])\<^sup>2)\<close> over the points
  \<open>p\<close> of the frontier. For the candidate \<open>[-16, -16]\<close> and the frontier
  \<open>{[-18, -17], [-17, -19]}\<close> it is \<open>min (sqrt 5) (sqrt 10) = sqrt 5\<close>.
\<close>

theorem hypervolume_contribution_nearest:
  "hypervolume_contribution x [] = Inr 0
   \<and> (f \<noteq> [] \<and> (\<forall>p\<in>set f. length (score p) = length c) \<longrightarrow>
        hypervolume_contribution c f =
          Inr (Min ((\<lambda>p. sqrt (\<Sum>i<length c. (c ! i - score p ! i)\<^sup>2)) ` set f)))
   \<and> hypervolume_contribution [-16, -16] [\<lparr>score = [-18, -17]\<rparr>, \<lparr>score = [-17, -19]\<rparr>]
        = Inr (sqrt 5)"
proof -
  have empty: "hypervolume_contribution x [] = Inr 0"
    by (simp add: hypervolume_contribution_def)
  have general: "hypervolume_contribution c f =
      Inr (Min ((\<lambda>p. sqrt (\<Sum>i<length c. (c ! i - score p ! i)\<^sup>2)) ` set f))"
    if "f \<noteq> []" and "\<forall>p\<in>set f. length (score p) = length c"
  proof -
    from that(2) have "\<forall>p\<in>set f. length c \<le> length (score p)" by simp
    then show ?thesis
      using that(1) by (simp add: hypervolume_contribution_def distances_total py_min_Min)
  qed
  have "sqrt 5 \<le> sqrt 10" by simp
  then have example: "hypervolume_contribution [-16, -16]
      [\<lparr>score = [-18, -17]\<rparr>, \<lparr>score = [-17, -19]\<rparr>] = Inr (sqrt 5)"
    by (simp add: hypervolume_contribution_def squared_differences_def)
  from empty general example show ?thesis by blast
qed

theorem hypervolume_contribution_nearest_witness:
  "[\<lparr>score = [-18, -17]\<rparr>, \<lparr>score = [-17, -19]\<rparr>] \<noteq> []
   \<and> hypervolume_contribution [-16, -16] [\<lparr>score = [-18, -17]\<rparr>, \<lparr>score = [-17, -19]\<rparr>]
       = Inr (Min {sqrt 5, sqrt 10})
   \<and> hypervolume_contribution [-16, -16] [] = Inr 0"
  using hypervolume_contribution_nearest
    [of "[-16, -16]" "[\<lparr>score = [-18, -17]\<rparr>, \<lparr>score = [-17, -19]\<rparr>]" "[-16, -16]"]
  by (simp add: lessThan_Suc numeral_2_eq_2)

text \<open>
  Claim C10. If the candidate is equal to the score of some point of the frontier (the
  scores of the frontier being at least as long as the candidate, as they are when all
  vectors have one length), \<open>hypervolume_contribution\<close> returns exactly 0; and no value
  it returns, on any input, is negative.
\<close>

theorem hypervolume_contribution_coincident:
  assumes "p \<in> set f" and "score p = c" and "\<forall>q\<in>set f. length c \<le> length (score q)"
  shows "hypervolume_contribution c f = Inr 0
       \<and> (\<forall>c' f' v. hypervolume_contribution c' f' = Inr v \<longrightarrow> 0 \<le> v)"
proof -
  define d :: "Function \<Rightarrow> real" where "d = (\<lambda>q. sqrt (\<Sum>i<length c. (c ! i - score q ! i)\<^sup>2))"
  from assms(1) have ne: "f \<noteq> []" by auto
  have val: "hypervolume_contribution c f = Inr (Min (d ` set f))"
    unfolding d_def using ne assms(3)
    by (simp add: hypervolume_contribution_def distances_total py_min_Min)
  have fin: "finite (d ` set f)" by (rule finite_imageI) (rule finite_set)
  have nonneg: "0 \<le> d q" for q
    unfolding d_def by (rule real_sqrt_ge_zero) (rule sum_nonneg, rule zero_le_power2)
  have "d p = 0"
    unfolding d_def assms(2) [symmetric] by simp
  moreover have "d p \<in> d ` set f"
    using assms(1) by (rule imageI)
  ultimately have upper: "Min (d ` set f) \<le> 0"
    using Min_le [OF fin, of "d p"] by simp
  have "d ` set f \<noteq> {}" using ne by simp
  then have "Min (d ` set f) \<in> d ` set f" using fin by (rule Min_in [rotated])
  then obtain q where "Min (d ` set f) = d q" by (rule imageE)
  with nonneg [of q] have lower: "0 \<le> Min (d ` set f)" by simp
  from upper lower have "Min (d ` set f) = 0" by (rule antisym)
  with val have first: "hypervolume_contribution c f = Inr 0" by simp
  have second: "0 \<le> v" if "hypervolume_contribution c' f' = Inr v" for c' f' v
  proof (cases "f' = []")
    case True
    with that show ?thesis by (simp add: hypervolume_contribution_def)
  next
    case False
    with that obtain ds where ds: "distances c' f' = Inr ds" and m: "py_min ds = Inr v"
      by (auto simp: hypervolume_contribution_def split: sum.splits)
    from m have dne: "ds \<noteq> []" by auto
    with m have "v = Min (set ds)" by (simp add: py_min_Min)
    moreover have "Min (set ds) \<in> set ds"
      using dne by (intro Min_in) simp_all
    ultimately have "v \<in> set ds" by simp
    with distances_nonneg [OF ds] show ?thesis by (rule bspec)
  qed
  from first second show ?thesis by blast
qed

theorem hypervolume_contribution_coincident_witness:
  "hypervolume_contribution [-17, -19] [\<lparr>score = [-18, -17]\<rparr>, \<lparr>score = [-17, -19]\<rparr>] = Inr 0"
  using hypervolume_contribution_coincident
    [of "\<lparr>score = [-17, -19]\<rparr>" "[\<lparr>score = [-18, -17]\<rparr>, \<lparr>score = [-17, -19]\<rparr>]" "[-17, -19]"]
  by simp

section \<open>Properties of \<^verbatim>\<open>compare_pareto_from_algorithms\<close>\<close>

subsection \<open>The attribution loop\<close>

lemma dict_modify_present:
  "k \<in> fst ` set al \<Longrightarrow> \<exists>al'. dict_modify k f al = Inr al'"
proof (induction al)
  case Nil
  then show ?case by simp
next
  case (Cons entry al)
  obtain k' v where entry: "entry = (k', v)" by (cases entry)
  show ?case
  proof (cases "k' = k")
    case True
    with entry show ?thesis by simp
  next
    case False
    with Cons.prems entry have "k \<in> fst ` set al" by auto
    from Cons.IH [OF this] obtain al' where "dict_modify k f al = Inr al'" by blast
    with False entry show ?thesis by simp
  qed
qed

lemma dict_modify_keys:
  "dict_modify k f al = Inr al' \<Longrightarrow> map fst al' = map fst al"
  by (induction al arbitrary: al') (auto split: sum.splits if_splits)

lemma dict_modify_count:
  "dict_modify k (\<lambda>c. c + 1) al = Inr al' \<Longrightarrow>
   sum_list (map snd al') = sum_list (map snd al) + (1 :: nat)"
  by (induction al arbitrary: al') (auto split: sum.splits if_splits)

lemma dict_modify_lookup:
  "dict_modify k f al = Inr al' \<Longrightarrow>
   map_of al' k' = (if k' = k then map_option f (map_of al k) else map_of al k')"
  by (induction al arbitrary: al') (auto split: sum.splits if_splits)

lemma credit_present:
  assumes "algo \<in> fst ` set (fst attr)" and "map fst (snd attr) = map fst (fst attr)"
  shows "\<exists>attr'. credit algo point attr = Inr attr'"
proof -
  from assms have "algo \<in> fst ` set (snd attr)"
    by (metis list.set_map)
  with assms(1) show ?thesis
    using dict_modify_present [of algo "fst attr" "\<lambda>c. c + 1"]
      dict_modify_present [of algo "snd attr" "\<lambda>ps. ps @ [point]"]
    by (auto simp: credit_def)
qed

lemma credit_effect:
  assumes "credit algo point attr = Inr attr'"
  shows "map fst (fst attr') = map fst (fst attr)"
    and "map fst (snd attr') = map fst (snd attr)"
    and "sum_list (map snd (fst attr')) = sum_list (map snd (fst attr)) + 1"
    and "map_of (fst attr') a = (if a = algo then map_option (\<lambda>c. c + 1) (map_of (fst attr) a)
                                 else map_of (fst attr) a)"
    and "map_of (snd attr') a = (if a = algo then map_option (\<lambda>ps. ps @ [point]) (map_of (snd attr) a)
                                 else map_of (snd attr) a)"
proof -
  from assms obtain cc cp where cc: "dict_modify algo (\<lambda>c. c + 1) (fst attr) = Inr cc"
    and cp: "dict_modify algo (\<lambda>ps. ps @ [point]) (snd attr) = Inr cp"
    and attr': "attr' = (cc, cp)"
    by (auto simp: credit_def split: sum.splits)
  show "map fst (fst attr') = map fst (fst attr)"
    using dict_modify_keys [OF cc] attr' by simp
  show "map fst (snd attr') = map fst (snd attr)"
    using dict_modify_keys [OF cp] attr' by simp
  show "sum_list (map snd (fst attr')) = sum_list (map snd (fst attr)) + 1"
    using dict_modify_count [OF cc] attr' by simp
  show "map_of (fst attr') a = (if a = algo then map_option (\<lambda>c. c + 1) (map_of (fst attr) a)
                                 else map_of (fst attr) a)"
    using dict_modify_lookup [OF cc, of a] attr' by simp
  show "map_of (snd attr') a = (if a = algo then map_option (\<lambda>ps. ps @ [point]) (map_of (snd attr) a)
                                 else map_of (snd attr) a)"
    using dict_modify_lookup [OF cp, of a] attr' by simp
qed

lemma np_allclose_refl: "np_allclose p p attribution_atol"
  by (simp add: np_allclose_def attribution_atol_def rtol_default_def list_all2_same)

lemma attribute_point_find:
  "attribute_point point pooled attr =
     (case find (\<lambda>(s, algo). np_allclose s point attribution_atol) pooled of
        None \<Rightarrow> Inr attr
      | Some (s, algo) \<Rightarrow> credit algo point attr)"
  by (induction pooled) auto

lemma attribute_point_cases:
  obtains (unmatched) "\<forall>(s, algo)\<in>set pooled. \<not> np_allclose s point attribution_atol"
      "attribute_point point pooled attr = Inr attr"
  | (matched) s algo where "(s, algo) \<in> set pooled" "np_allclose s point attribution_atol"
      "attribute_point point pooled attr = credit algo point attr"
proof (cases "find (\<lambda>(s, algo). np_allclose s point attribution_atol) pooled")
  case None
  then have "\<forall>(s, algo)\<in>set pooled. \<not> np_allclose s point attribution_atol"
    by (auto simp: find_None_iff)
  moreover from None have "attribute_point point pooled attr = Inr attr"
    by (simp add: attribute_point_find)
  ultimately show ?thesis by (rule unmatched)
next
  case (Some hit)
  obtain s algo where hit: "hit = (s, algo)" by (cases hit)
  from Some hit have "(s, algo) \<in> set pooled" "np_allclose s point attribution_atol"
    by (auto simp: find_Some_iff in_set_conv_nth)
  moreover from Some hit have "attribute_point point pooled attr = credit algo point attr"
    by (simp add: attribute_point_find)
  ultimately show ?thesis by (rule matched)
qed

lemma attribute_point_total:
  assumes labels: "snd ` set pooled \<subseteq> fst ` set (fst attr)"
    and keys: "map fst (snd attr) = map fst (fst attr)"
  shows "\<exists>attr'. attribute_point point pooled attr = Inr attr'
           \<and> map fst (fst attr') = map fst (fst attr)
           \<and> map fst (snd attr') = map fst (snd attr)
           \<and> sum_list (map snd (fst attr')) \<le> sum_list (map snd (fst attr)) + 1
           \<and> (point \<in> fst ` set pooled \<longrightarrow>
                sum_list (map snd (fst attr')) = sum_list (map snd (fst attr)) + 1)"
proof (cases rule: attribute_point_cases [of pooled point attr])
  case unmatched
  have "point \<notin> fst ` set pooled"
  proof
    assume "point \<in> fst ` set pooled"
    then obtain algo where "(point, algo) \<in> set pooled" by auto
    with unmatched(1) have "\<not> np_allclose point point attribution_atol" by auto
    then show False by (simp add: np_allclose_refl)
  qed
  with unmatched(2) show ?thesis by simp
next
  case (matched s algo)
  from matched(1) labels have "algo \<in> fst ` set (fst attr)" by force
  from credit_present [OF this keys] obtain attr' where c: "credit algo point attr = Inr attr'"
    by blast
  show ?thesis
    using matched(3) c credit_effect(1-3) [OF c] by simp
qed

lemma attribute_points_total:
  assumes "snd ` set pooled \<subseteq> fst ` set (fst attr)"
    and "map fst (snd attr) = map fst (fst attr)"
    and "set pf \<subseteq> fst ` set pooled"
  shows "\<exists>attr'. attribute_points pf pooled attr = Inr attr'
           \<and> map fst (fst attr') = map fst (fst attr)
           \<and> map fst (snd attr') = map fst (snd attr)
           \<and> sum_list (map snd (fst attr')) = sum_list (map snd (fst attr)) + length pf"
  using assms
proof (induction pf arbitrary: attr)
  case Nil
  show ?case by simp
next
  case (Cons point pf)
  from Cons.prems(3) have here: "point \<in> fst ` set pooled" and rest: "set pf \<subseteq> fst ` set pooled"
    by simp_all
  from attribute_point_total [OF Cons.prems(1,2), of point] here
  obtain attr1 where a1: "attribute_point point pooled attr = Inr attr1"
    and k1: "map fst (fst attr1) = map fst (fst attr)"
    and k2: "map fst (snd attr1) = map fst (snd attr)"
    and s1: "sum_list (map snd (fst attr1)) = sum_list (map snd (fst attr)) + 1"
    by blast
  have labels1: "snd ` set pooled \<subseteq> fst ` set (fst attr1)"
    using Cons.prems(1) k1 by (metis list.set_map)
  have keys1: "map fst (snd attr1) = map fst (fst attr1)"
    using Cons.prems(2) k1 k2 by simp
  from Cons.IH [OF labels1 keys1 rest]
  obtain attr' where a': "attribute_points pf pooled attr1 = Inr attr'"
    and k': "map fst (fst attr') = map fst (fst attr1)" "map fst (snd attr') = map fst (snd attr1)"
    and s': "sum_list (map snd (fst attr')) = sum_list (map snd (fst attr1)) + length pf"
    by blast
  show ?case
    using a1 a' k' k1 k2 s1 s' by simp
qed

lemma attribute_point_untouched:
  assumes "attribute_point point pooled attr = Inr attr'" and "a \<notin> snd ` set pooled"
  shows "map_of (fst attr') a = map_of (fst attr) a \<and> map_of (snd attr') a = map_of (snd attr) a"
proof (cases rule: attribute_point_cases [of pooled point attr])
  case unmatched
  with assms(1) show ?thesis by simp
next
  case (matched s algo)
  from matched(1) assms(2) have "a \<noteq> algo" by force
  moreover from matched(3) assms(1) have "credit algo point attr = Inr attr'" by simp
  ultimately show ?thesis
    using credit_effect(4,5) [of algo point attr attr' a] by simp
qed

lemma attribute_points_untouched:
  "attribute_points pf pooled attr = Inr attr' \<Longrightarrow> a \<notin> snd ` set pooled \<Longrightarrow>
   map_of (fst attr') a = map_of (fst attr) a \<and> map_of (snd attr') a = map_of (snd attr) a"
proof (induction pf arbitrary: attr)
  case Nil
  then show ?case by simp
next
  case (Cons point pf)
  from Cons.prems(1) obtain attr1 where a1: "attribute_point point pooled attr = Inr attr1"
    and rest: "attribute_points pf pooled attr1 = Inr attr'"
    by (auto split: sum.splits)
  show ?case
    using attribute_point_untouched [OF a1 Cons.prems(2)] Cons.IH [OF rest Cons.prems(2)]
    by simp
qed

subsection \<open>The first loop\<close>

lemma collect_foldl:
  "foldl (\<lambda>algo_scores file_path.
            let scores = read_score_from_path storage file_path
            in if length scores = 0 then algo_scores else algo_scores @ scores) acc file_list
   = acc @ concat (map (read_score_from_path storage) file_list)"
  by (induction file_list arbitrary: acc) (simp_all add: Let_def)

lemma collect_algo_scores_concat:
  "collect_algo_scores storage file_list = concat (map (read_score_from_path storage) file_list)"
  unfolding collect_algo_scores_def using collect_foldl [of storage "[]" file_list] by simp

lemma zip_replicate_label: "zip ys (replicate (length ys) a) = map (\<lambda>s. (s, a)) ys"
  by (induction ys) simp_all

lemma limit_scores_empty: "limit_scores max_fe [] = []"
  by (simp add: limit_scores_def py_prefix_def split: option.splits)

lemma np_array_Inr: "np_array rows = Inr arr \<Longrightarrow> arr = rows"
  by (simp add: np_array_def split: if_splits)

lemma report_front_nonempty: "report_front arr front show_point_label = Inr u \<Longrightarrow> arr \<noteq> []"
  by (auto simp: report_front_def column_slice_def ncols_def split: if_splits)

lemma report_front_rows:
  "report_front arr front show_point_label = Inr u \<Longrightarrow> point \<in> set front \<Longrightarrow> 2 \<le> length point"
  by (auto simp: report_front_def list_ex_iff not_less split: if_splits)

lemma np_array_two_columns:
  "\<forall>row\<in>set rows. length row = 2 \<Longrightarrow> np_array rows = Inr rows"
  by (simp add: np_array_def same_row_lengths_def list_all_iff)

lemma report_front_two_columns:
  assumes "arr \<noteq> []" and "\<forall>row\<in>set arr. length row = 2" and "set front \<subseteq> set arr"
  shows "report_front arr front show_point_label = Inr ()"
proof -
  from assms(1,2) have cols: "ncols arr = Some 2"
    by (cases arr) (simp_all add: ncols_def)
  from assms(2,3) have rows: "\<forall>row\<in>set front. length row = 2" by blast
  then have "\<not> list_ex (\<lambda>point. length point < 2) front"
    and "\<not> list_ex (\<lambda>row. length row \<noteq> 2) front"
    by (simp_all add: list_ex_iff)
  with cols show ?thesis
    by (simp add: report_front_def column_slice_def)
qed

lemma non_dominated_indices_bound:
  "i \<in> set (non_dominated_indices F) \<Longrightarrow> i < length F"
  by (simp add: non_dominated_indices_def)

lemma non_dominated_rows:
  "set (map (\<lambda>i. F ! i) (non_dominated_indices F)) \<subseteq> set F"
  by (auto dest: non_dominated_indices_bound)

lemma find_pareto_front_rows:
  "set (find_pareto_front_from_scores algo_scores) \<subseteq> set algo_scores"
  unfolding find_pareto_front_from_scores_def by (rule non_dominated_rows)

text \<open>One pass of the first loop over a source that has vectors.\<close>

lemma local_step:
  assumes "collect_algo_scores storage file_list \<noteq> []"
  shows "local_pareto_analysis storage max_fe show_point_label ((algo, file_list) # rest) st =
     (case np_array (limit_scores max_fe (collect_algo_scores storage file_list)) of
        Inl e \<Rightarrow> Inl e
      | Inr algo_scores \<Rightarrow>
          (case report_front algo_scores (find_pareto_front_from_scores algo_scores)
                  show_point_label of
             Inl e \<Rightarrow> Inl e
           | Inr _ \<Rightarrow>
               local_pareto_analysis storage max_fe show_point_label rest
                 (st\<lparr>algo_fronts :=
                       AList.update algo (find_pareto_front_from_scores algo_scores) (algo_fronts st),
                     all_scores := all_scores st @ [algo_scores],
                     algo_labels := algo_labels st @ replicate (length algo_scores) algo\<rparr>)))"
  using assms by (simp add: Let_def split: sum.splits)

lemma local_step_skip:
  assumes "collect_algo_scores storage file_list = []"
  shows "local_pareto_analysis storage max_fe show_point_label ((algo, file_list) # rest) st =
     local_pareto_analysis storage max_fe show_point_label rest (st\<lparr>warned := warned st @ [algo]\<rparr>)"
  using assms by (simp add: Let_def)

text \<open>
  What a pass that does not raise has done: the limited scores are a non-empty array,
  and the state is extended by them.
\<close>

lemma local_step_Inr:
  assumes "collect_algo_scores storage file_list \<noteq> []"
    and "local_pareto_analysis storage max_fe show_point_label ((algo, file_list) # rest) st = Inr st'"
  defines "ys \<equiv> limit_scores max_fe (collect_algo_scores storage file_list)"
  shows "ys \<noteq> []"
    and "\<forall>point\<in>set (find_pareto_front_from_scores ys). 2 \<le> length point"
    and "local_pareto_analysis storage max_fe show_point_label rest
           (st\<lparr>algo_fronts := AList.update algo (find_pareto_front_from_scores ys) (algo_fronts st),
               all_scores := all_scores st @ [ys],
               algo_labels := algo_labels st @ replicate (length ys) algo\<rparr>) = Inr st'"
proof -
  from assms(2) obtain arr where arr: "np_array ys = Inr arr"
    unfolding local_step [OF assms(1)] ys_def by (auto split: sum.splits)
  then have eq: "arr = ys" by (rule np_array_Inr)
  from assms(2) arr eq obtain u where
    rep: "report_front ys (find_pareto_front_from_scores ys) show_point_label = Inr u"
    unfolding local_step [OF assms(1)] ys_def by (auto split: sum.splits)
  from rep show "ys \<noteq> []" by (rule report_front_nonempty)
  from rep show "\<forall>point\<in>set (find_pareto_front_from_scores ys). 2 \<le> length point"
    by (auto dest: report_front_rows)
  from assms(2) arr eq rep
  show "local_pareto_analysis storage max_fe show_point_label rest
           (st\<lparr>algo_fronts := AList.update algo (find_pareto_front_from_scores ys) (algo_fronts st),
               all_scores := all_scores st @ [ys],
               algo_labels := algo_labels st @ replicate (length ys) algo\<rparr>) = Inr st'"
    unfolding local_step [OF assms(1)] ys_def by simp
qed

text \<open>
  What the first loop has built when it has not raised: the arrays of the sources that
  have vectors, each limited and none empty, in the order of the input; a label for each
  of their rows; and a warning for each source without vectors.
\<close>

lemma local_result:
  assumes "local_pareto_analysis storage max_fe show_point_label file_dict st = Inr st'"
  shows "all_scores st' = all_scores st @
           map (\<lambda>(algo, file_list). limit_scores max_fe (collect_algo_scores storage file_list))
             (filter (\<lambda>(algo, file_list). collect_algo_scores storage file_list \<noteq> []) file_dict)
       \<and> warned st' = warned st @
           map fst (filter (\<lambda>(algo, file_list). collect_algo_scores storage file_list = []) file_dict)
       \<and> algo_labels st' = algo_labels st @
           concat (map (\<lambda>(algo, file_list).
                     replicate (length (limit_scores max_fe (collect_algo_scores storage file_list))) algo)
                   file_dict)
       \<and> (\<forall>(algo, file_list)\<in>set file_dict.
             collect_algo_scores storage file_list \<noteq> [] \<longrightarrow>
             limit_scores max_fe (collect_algo_scores storage file_list) \<noteq> [])"
  using assms
proof (induction file_dict arbitrary: st)
  case Nil
  then show ?case by simp
next
  case (Cons entry file_dict)
  obtain algo file_list where entry: "entry = (algo, file_list)" by (cases entry)
  let ?xs = "collect_algo_scores storage file_list"
  show ?case
  proof (cases "?xs = []")
    case True
    from Cons.prems have "local_pareto_analysis storage max_fe show_point_label file_dict
        (st\<lparr>warned := warned st @ [algo]\<rparr>) = Inr st'"
      unfolding entry local_step_skip [OF True] .
    from Cons.IH [OF this] show ?thesis
      unfolding entry using True by (simp add: limit_scores_empty)
  next
    case False
    let ?ys = "limit_scores max_fe ?xs"
    from Cons.prems have run: "local_pareto_analysis storage max_fe show_point_label
        ((algo, file_list) # file_dict) st = Inr st'"
      unfolding entry .
    from local_step_Inr(1) [OF False run] have ne: "?ys \<noteq> []" .
    from Cons.IH [OF local_step_Inr(3) [OF False run]] show ?thesis
      unfolding entry using False ne by simp
  qed
qed

lemma local_all_scores:
  "local_pareto_analysis storage max_fe show_point_label file_dict st = Inr st' \<Longrightarrow>
   all_scores st' = all_scores st @
     map (\<lambda>(algo, file_list). limit_scores max_fe (collect_algo_scores storage file_list))
       (filter (\<lambda>(algo, file_list). collect_algo_scores storage file_list \<noteq> []) file_dict)"
  by (drule local_result) blast

lemma local_warned:
  "local_pareto_analysis storage max_fe show_point_label file_dict st = Inr st' \<Longrightarrow>
   warned st' = warned st @
     map fst (filter (\<lambda>(algo, file_list). collect_algo_scores storage file_list = []) file_dict)"
  by (drule local_result) blast

lemma local_labels:
  "local_pareto_analysis storage max_fe show_point_label file_dict st = Inr st' \<Longrightarrow>
   algo_labels st' = algo_labels st @
     concat (map (\<lambda>(algo, file_list).
               replicate (length (limit_scores max_fe (collect_algo_scores storage file_list))) algo)
             file_dict)"
  by (drule local_result) blast

lemma local_limited_nonempty:
  "local_pareto_analysis storage max_fe show_point_label file_dict st = Inr st' \<Longrightarrow>
   (algo, file_list) \<in> set file_dict \<Longrightarrow> collect_algo_scores storage file_list \<noteq> [] \<Longrightarrow>
   limit_scores max_fe (collect_algo_scores storage file_list) \<noteq> []"
  by (drule local_result) blast

lemma local_arrays_nonempty:
  assumes "local_pareto_analysis storage max_fe show_point_label file_dict initial_analysis = Inr st"
  shows "[] \<notin> set (all_scores st)"
proof
  assume "[] \<in> set (all_scores st)"
  then obtain algo file_list where "(algo, file_list) \<in> set file_dict"
    and "collect_algo_scores storage file_list \<noteq> []"
    and "limit_scores max_fe (collect_algo_scores storage file_list) = []"
    unfolding local_all_scores [OF assms] by (auto simp: initial_analysis_def)
  with local_limited_nonempty [OF assms] show False by blast
qed

lemma local_labels_keys:
  assumes "local_pareto_analysis storage max_fe show_point_label file_dict initial_analysis = Inr st"
  shows "set (algo_labels st) \<subseteq> fst ` set file_dict"
  unfolding local_labels [OF assms] by (force simp: initial_analysis_def)

lemma local_labels_length:
  assumes "local_pareto_analysis storage max_fe show_point_label file_dict initial_analysis = Inr st"
  shows "length (algo_labels st) = length (concat (all_scores st))"
proof -
  have "length (concat (map (\<lambda>(algo, file_list).
            replicate (length (limit_scores max_fe (collect_algo_scores storage file_list))) algo) fd)) =
        length (concat (map (\<lambda>(algo, file_list).
            limit_scores max_fe (collect_algo_scores storage file_list))
          (filter (\<lambda>(algo, file_list). collect_algo_scores storage file_list \<noteq> []) fd)))" for fd
    by (induction fd) (auto simp: limit_scores_empty)
  then show ?thesis
    unfolding local_labels [OF assms] local_all_scores [OF assms]
    by (simp add: initial_analysis_def)
qed

lemma local_pooled_order:
  assumes "local_pareto_analysis storage max_fe show_point_label file_dict initial_analysis = Inr st"
  shows "zip (concat (all_scores st)) (algo_labels st) =
     concat (map (\<lambda>(algo, file_list).
                    map (\<lambda>s. (s, algo))
                      (limit_scores max_fe (collect_algo_scores storage file_list)))
               file_dict)"
proof -
  have "zip (concat (map (\<lambda>(algo, file_list).
            limit_scores max_fe (collect_algo_scores storage file_list))
          (filter (\<lambda>(algo, file_list). collect_algo_scores storage file_list \<noteq> []) fd)))
        (concat (map (\<lambda>(algo, file_list).
            replicate (length (limit_scores max_fe (collect_algo_scores storage file_list))) algo) fd)) =
     concat (map (\<lambda>(algo, file_list).
                    map (\<lambda>s. (s, algo))
                      (limit_scores max_fe (collect_algo_scores storage file_list))) fd)" for fd
    by (induction fd) (auto simp: limit_scores_empty zip_replicate_label)
  then show ?thesis
    unfolding local_labels [OF assms] local_all_scores [OF assms]
    by (simp add: initial_analysis_def)
qed

lemma local_fronts_other:
  "local_pareto_analysis storage max_fe show_point_label file_dict st = Inr st' \<Longrightarrow>
   algo \<notin> fst ` set file_dict \<Longrightarrow>
   map_of (algo_fronts st') algo = map_of (algo_fronts st) algo"
proof (induction file_dict arbitrary: st)
  case Nil
  then show ?case by simp
next
  case (Cons entry file_dict)
  obtain a fl where entry: "entry = (a, fl)" by (cases entry)
  from Cons.prems(2) entry have ne: "a \<noteq> algo" and notin: "algo \<notin> fst ` set file_dict"
    by auto
  show ?case
  proof (cases "collect_algo_scores storage fl = []")
    case True
    from Cons.prems(1) have "local_pareto_analysis storage max_fe show_point_label file_dict
        (st\<lparr>warned := warned st @ [a]\<rparr>) = Inr st'"
      unfolding entry local_step_skip [OF True] .
    from Cons.IH [OF this notin] show ?thesis by simp
  next
    case False
    from Cons.prems(1) have run: "local_pareto_analysis storage max_fe show_point_label
        ((a, fl) # file_dict) st = Inr st'"
      unfolding entry .
    from Cons.IH [OF local_step_Inr(3) [OF False run] notin] ne show ?thesis
      by (simp add: update_conv')
  qed
qed

lemma local_fronts_lookup:
  "local_pareto_analysis storage max_fe show_point_label file_dict st = Inr st' \<Longrightarrow>
   distinct (map fst file_dict) \<Longrightarrow> (algo, file_list) \<in> set file_dict \<Longrightarrow>
   map_of (algo_fronts st') algo =
     (if collect_algo_scores storage file_list = [] then map_of (algo_fronts st) algo
      else Some (find_pareto_front_from_scores
                   (limit_scores max_fe (collect_algo_scores storage file_list))))"
proof (induction file_dict arbitrary: st)
  case Nil
  then show ?case by simp
next
  case (Cons entry file_dict)
  obtain a fl where entry: "entry = (a, fl)" by (cases entry)
  from Cons.prems(2) have dist: "distinct (map fst file_dict)" by simp
  show ?case
  proof (cases "collect_algo_scores storage fl = []")
    case True
    from Cons.prems(1) have rest: "local_pareto_analysis storage max_fe show_point_label file_dict
        (st\<lparr>warned := warned st @ [a]\<rparr>) = Inr st'"
      unfolding entry local_step_skip [OF True] .
    show ?thesis
    proof (cases "entry = (algo, file_list)")
      case same: True
      with Cons.prems(2) entry have "algo \<notin> fst ` set file_dict" by auto
      from local_fronts_other [OF rest this] same entry True show ?thesis by simp
    next
      case False
      with Cons.prems(3) have "(algo, file_list) \<in> set file_dict" by simp
      from Cons.IH [OF rest dist this] show ?thesis by simp
    qed
  next
    case False
    from Cons.prems(1) have run: "local_pareto_analysis storage max_fe show_point_label
        ((a, fl) # file_dict) st = Inr st'"
      unfolding entry .
    note rest = local_step_Inr(3) [OF False run]
    show ?thesis
    proof (cases "entry = (algo, file_list)")
      case same: True
      with Cons.prems(2) entry have "algo \<notin> fst ` set file_dict" by auto
      from local_fronts_other [OF rest this] same entry False show ?thesis
        by (simp add: update_conv')
    next
      case other: False
      with Cons.prems(3) have mem: "(algo, file_list) \<in> set file_dict" by simp
      with Cons.prems(2) entry have "a \<noteq> algo" by force
      with Cons.IH [OF rest dist mem] show ?thesis
        by (simp add: update_conv')
    qed
  qed
qed

lemma local_labels_skipped:
  assumes "local_pareto_analysis storage max_fe show_point_label file_dict initial_analysis = Inr st"
    and "distinct (map fst file_dict)" and "(algo, file_list) \<in> set file_dict"
    and "collect_algo_scores storage file_list = []"
  shows "algo \<notin> set (algo_labels st)"
proof
  assume "algo \<in> set (algo_labels st)"
  then obtain a fl where mem: "(a, fl) \<in> set file_dict"
    and rep: "algo \<in> set (replicate (length (limit_scores max_fe (collect_algo_scores storage fl))) a)"
    unfolding local_labels [OF assms(1)] by (auto simp: initial_analysis_def)
  from rep have "a = algo" and ne: "limit_scores max_fe (collect_algo_scores storage fl) \<noteq> []"
    by (auto simp: in_set_replicate)
  with mem assms(2,3) have "fl = file_list"
    by (metis eq_key_imp_eq_value)
  with ne assms(4) show False by (simp add: limit_scores_empty)
qed

text \<open>
  The first loop raises nothing when every source that has vectors keeps some under the
  limit and has rows of exactly two coordinates.
\<close>

lemma local_returns:
  assumes "\<forall>(algo, file_list)\<in>set file_dict.
      collect_algo_scores storage file_list \<noteq> [] \<longrightarrow>
      limit_scores max_fe (collect_algo_scores storage file_list) \<noteq> [] \<and>
      (\<forall>row\<in>set (limit_scores max_fe (collect_algo_scores storage file_list)). length row = 2)"
  shows "\<exists>st'. local_pareto_analysis storage max_fe show_point_label file_dict st = Inr st'"
  using assms
proof (induction file_dict arbitrary: st)
  case Nil
  show ?case by simp
next
  case (Cons entry file_dict)
  obtain algo file_list where entry: "entry = (algo, file_list)" by (cases entry)
  from Cons.prems have rest: "\<forall>(algo, file_list)\<in>set file_dict.
      collect_algo_scores storage file_list \<noteq> [] \<longrightarrow>
      limit_scores max_fe (collect_algo_scores storage file_list) \<noteq> [] \<and>
      (\<forall>row\<in>set (limit_scores max_fe (collect_algo_scores storage file_list)). length row = 2)"
    by simp
  show ?case
  proof (cases "collect_algo_scores storage file_list = []")
    case True
    show ?thesis
      unfolding entry local_step_skip [OF True] by (rule Cons.IH [OF rest])
  next
    case False
    let ?ys = "limit_scores max_fe (collect_algo_scores storage file_list)"
    from Cons.prems entry False have ne: "?ys \<noteq> []" and two: "\<forall>row\<in>set ?ys. length row = 2"
      by auto
    have arr: "np_array ?ys = Inr ?ys"
      using two by (rule np_array_two_columns)
    have rep: "report_front ?ys (find_pareto_front_from_scores ?ys) show_point_label = Inr ()"
      using ne two find_pareto_front_rows by (rule report_front_two_columns)
    show ?thesis
      unfolding entry local_step [OF False] using arr rep Cons.IH [OF rest] by simp
  qed
qed

subsection \<open>The whole function\<close>

lemma atleast_2d_arrays: "[] \<notin> set arrays \<Longrightarrow> map atleast_2d arrays = arrays"
  by (induction arrays) (auto simp: atleast_2d_def)

lemma np_vstack_Inr:
  "np_vstack arrays = Inr stacked \<Longrightarrow> [] \<notin> set arrays \<Longrightarrow> stacked = concat arrays"
  by (auto simp: np_vstack_def Let_def atleast_2d_arrays split: if_splits)

lemma np_vstack_two_columns:
  assumes "arrays \<noteq> []" and "[] \<notin> set arrays"
    and "\<forall>arr\<in>set arrays. \<forall>row\<in>set arr. length row = 2"
  shows "np_vstack arrays = Inr (concat arrays)"
proof -
  from assms(3) have "same_row_lengths (concat arrays)"
    by (auto simp: same_row_lengths_def list_all_iff)
  with assms(1,2) show ?thesis
    by (simp add: np_vstack_def Let_def atleast_2d_arrays)
qed

lemma compare_local:
  "compare_pareto_from_algorithms storage file_dict show_global max_fe show_point_label print_point
     = Inr out \<Longrightarrow>
   local_pareto_analysis storage max_fe show_point_label file_dict initial_analysis = Inr (local out)"
  by (auto simp: compare_pareto_from_algorithms_def Let_def split: sum.splits if_splits prod.splits)

lemma compare_empty:
  "local_pareto_analysis storage max_fe show_point_label file_dict initial_analysis = Inr st \<Longrightarrow>
   all_scores st = [] \<Longrightarrow>
   compare_pareto_from_algorithms storage file_dict show_global max_fe show_point_label print_point
     = Inl no_valid_data"
  by (simp add: compare_pareto_from_algorithms_def)

lemma compare_raises:
  "local_pareto_analysis storage max_fe show_point_label file_dict initial_analysis = Inl e \<Longrightarrow>
   compare_pareto_from_algorithms storage file_dict show_global max_fe show_point_label print_point
     = Inl e"
  by (simp add: compare_pareto_from_algorithms_def)

text \<open>What a run with the global analysis has computed when it has not raised.\<close>

lemma compare_global_result:
  assumes "compare_pareto_from_algorithms storage file_dict True max_fe show_point_label print_point
     = Inr out"
  shows "\<exists>st stacked cc cp.
      local_pareto_analysis storage max_fe show_point_label file_dict initial_analysis = Inr st
      \<and> all_scores st \<noteq> []
      \<and> stacked = concat (all_scores st)
      \<and> out = \<lparr>local = st,
                global = Some \<lparr>global_pf = map (\<lambda>i. stacked ! i) (non_dominated_indices stacked),
                                contribution_count = cc, contribution_points = cp\<rparr>\<rparr>
      \<and> attribute_points (map (\<lambda>i. stacked ! i) (non_dominated_indices stacked))
           (zip stacked (algo_labels st))
           (map (\<lambda>algo. (algo, 0)) (map fst file_dict), map (\<lambda>algo. (algo, [])) (map fst file_dict))
          = Inr (cc, cp)"
proof -
  from assms obtain st where st: "local_pareto_analysis storage max_fe show_point_label
      file_dict initial_analysis = Inr st"
    by (auto simp: compare_pareto_from_algorithms_def split: sum.splits)
  from assms st have ne: "all_scores st \<noteq> []"
    by (auto simp: compare_pareto_from_algorithms_def split: if_splits)
  from assms st ne obtain stacked where stacked: "np_vstack (all_scores st) = Inr stacked"
    by (auto simp: compare_pareto_from_algorithms_def split: sum.splits)
  from np_vstack_Inr [OF stacked local_arrays_nonempty [OF st]]
  have eq: "stacked = concat (all_scores st)" .
  let ?pf = "map (\<lambda>i. stacked ! i) (non_dominated_indices stacked)"
  from assms st ne stacked obtain cc cp where
    run: "attribute_points ?pf (zip stacked (algo_labels st))
           (map (\<lambda>algo. (algo, 0)) (map fst file_dict), map (\<lambda>algo. (algo, [])) (map fst file_dict))
          = Inr (cc, cp)"
    by (auto simp: compare_pareto_from_algorithms_def Let_def split: sum.splits)
  from assms st ne stacked run have
    "out = \<lparr>local = st,
            global = Some \<lparr>global_pf = ?pf, contribution_count = cc, contribution_points = cp\<rparr>\<rparr>"
    by (auto simp: compare_pareto_from_algorithms_def Let_def split: sum.splits)
  with st ne eq run show ?thesis by blast
qed

text \<open>
  The attribution of a run that has not raised: one count and one point list per key of
  \<open>file_dict\<close>, in its order, and one credit for every point of the global front.
\<close>

lemma compare_attribution:
  assumes "compare_pareto_from_algorithms storage file_dict True max_fe show_point_label print_point
     = Inr out"
  shows "\<exists>g. global out = Some g
      \<and> set (global_pf g) \<subseteq> set (concat (all_scores (local out)))
      \<and> map fst (contribution_count g) = map fst file_dict
      \<and> map fst (contribution_points g) = map fst file_dict
      \<and> sum_list (map snd (contribution_count g)) = length (global_pf g)"
proof -
  from compare_global_result [OF assms] obtain st stacked cc cp where
    st: "local_pareto_analysis storage max_fe show_point_label file_dict initial_analysis = Inr st"
    and stacked: "stacked = concat (all_scores st)"
    and out: "out = \<lparr>local = st,
                global = Some \<lparr>global_pf = map (\<lambda>i. stacked ! i) (non_dominated_indices stacked),
                                contribution_count = cc, contribution_points = cp\<rparr>\<rparr>"
    and run: "attribute_points (map (\<lambda>i. stacked ! i) (non_dominated_indices stacked))
           (zip stacked (algo_labels st))
           (map (\<lambda>algo. (algo, 0)) (map fst file_dict), map (\<lambda>algo. (algo, [])) (map fst file_dict))
          = Inr (cc, cp)"
    by blast
  let ?pf = "map (\<lambda>i. stacked ! i) (non_dominated_indices stacked)"
  let ?pooled = "zip stacked (algo_labels st)"
  let ?count0 = "map (\<lambda>algo. (algo, 0 :: nat)) (map fst file_dict)"
  let ?points0 = "map (\<lambda>algo. (algo, [] :: scores)) (map fst file_dict)"
  have len: "length (algo_labels st) = length stacked"
    unfolding stacked by (rule local_labels_length [OF st])
  have "snd ` set ?pooled \<subseteq> set (algo_labels st)"
    by (auto dest: set_zip_rightD)
  moreover have "fst ` set ?count0 = fst ` set file_dict"
    by (simp add: image_comp comp_def)
  ultimately have labels: "snd ` set ?pooled \<subseteq> fst ` set (fst (?count0, ?points0))"
    using local_labels_keys [OF st] by simp
  have keys: "map fst (snd (?count0, ?points0)) = map fst (fst (?count0, ?points0))"
    by (simp add: comp_def)
  have "map fst ?pooled = stacked"
    using len by simp
  then have "fst ` set ?pooled = set stacked"
    by (metis list.set_map)
  moreover have rows: "set ?pf \<subseteq> set stacked"
    by (rule non_dominated_rows)
  ultimately have points: "set ?pf \<subseteq> fst ` set ?pooled"
    by simp
  from attribute_points_total [OF labels keys points] run
  have k1: "map fst cc = map fst ?count0" and k2: "map fst cp = map fst ?points0"
    and total: "sum_list (map snd cc) = sum_list (map snd ?count0) + length ?pf"
    by simp_all
  have zero: "sum_list (map snd ?count0) = 0"
    by (simp add: comp_def)
  have keys0: "map fst ?count0 = map fst file_dict" "map fst ?points0 = map fst file_dict"
    by (simp_all add: comp_def)
  show ?thesis
    unfolding out using rows k1 k2 total zero keys0 stacked by simp
qed

text \<open>
  The function raises nothing when some source has vectors and every source that has
  vectors keeps some under the limit and has rows of exactly two coordinates.
\<close>

lemma compare_returns:
  assumes wf: "\<forall>(algo, file_list)\<in>set file_dict.
      collect_algo_scores storage file_list \<noteq> [] \<longrightarrow>
      limit_scores max_fe (collect_algo_scores storage file_list) \<noteq> [] \<and>
      (\<forall>row\<in>set (limit_scores max_fe (collect_algo_scores storage file_list)). length row = 2)"
    and some: "\<exists>(algo, file_list)\<in>set file_dict. collect_algo_scores storage file_list \<noteq> []"
  shows "\<exists>out. compare_pareto_from_algorithms storage file_dict show_global max_fe
           show_point_label print_point = Inr out"
proof -
  from local_returns [OF wf] obtain st where
    st: "local_pareto_analysis storage max_fe show_point_label file_dict initial_analysis = Inr st"
    by blast
  have arrays: "all_scores st =
      map (\<lambda>(algo, file_list). limit_scores max_fe (collect_algo_scores storage file_list))
        (filter (\<lambda>(algo, file_list). collect_algo_scores storage file_list \<noteq> []) file_dict)"
    using local_all_scores [OF st] by (simp add: initial_analysis_def)
  from some have ne: "all_scores st \<noteq> []"
    unfolding arrays by (auto simp: filter_empty_conv)
  show ?thesis
  proof (cases show_global)
    case False
    with st ne show ?thesis
      by (simp add: compare_pareto_from_algorithms_def)
  next
    case True
    let ?stacked = "concat (all_scores st)"
    let ?pf = "map (\<lambda>i. ?stacked ! i) (non_dominated_indices ?stacked)"
    let ?pooled = "zip ?stacked (algo_labels st)"
    let ?count0 = "map (\<lambda>algo. (algo, 0 :: nat)) (map fst file_dict)"
    let ?points0 = "map (\<lambda>algo. (algo, [] :: scores)) (map fst file_dict)"
    have nonempty: "[] \<notin> set (all_scores st)"
      by (rule local_arrays_nonempty [OF st])
    have two: "\<forall>arr\<in>set (all_scores st). \<forall>row\<in>set arr. length row = 2"
      unfolding arrays using wf by auto
    have stack: "np_vstack (all_scores st) = Inr ?stacked"
      using ne nonempty two by (rule np_vstack_two_columns)
    from ne nonempty have sne: "?stacked \<noteq> []"
      by (cases "all_scores st") auto
    from two have rows: "\<forall>row\<in>set ?stacked. length row = 2" by auto
    have rep: "report_front ?stacked ?pf show_point_label = Inr ()"
      using sne rows non_dominated_rows by (rule report_front_two_columns)
    have len: "length (algo_labels st) = length ?stacked"
      by (rule local_labels_length [OF st])
    have "snd ` set ?pooled \<subseteq> set (algo_labels st)"
      by (auto dest: set_zip_rightD)
    moreover have "fst ` set ?count0 = fst ` set file_dict"
      by (simp add: image_comp comp_def)
    ultimately have labels: "snd ` set ?pooled \<subseteq> fst ` set (fst (?count0, ?points0))"
      using local_labels_keys [OF st] by simp
    have keys: "map fst (snd (?count0, ?points0)) = map fst (fst (?count0, ?points0))"
      by (simp add: comp_def)
    have "map fst ?pooled = ?stacked"
      using len by simp
    then have "fst ` set ?pooled = set ?stacked"
      by (metis list.set_map)
    then have points: "set ?pf \<subseteq> fst ` set ?pooled"
      using non_dominated_rows [of ?stacked] by simp
    from attribute_points_total [OF labels keys points] obtain cc cp where
      run: "attribute_points ?pf ?pooled (?count0, ?points0) = Inr (cc, cp)"
      by (metis surj_pair)
    show ?thesis
      using True st ne stack run rep
      by (simp add: compare_pareto_from_algorithms_def Let_def)
  qed
qed

lemma map_of_constant:
  "k \<in> set ks \<Longrightarrow> map_of (map (\<lambda>algo. (algo, v)) ks) k = Some v"
  by (induction ks) auto

lemmas evaluation =
  compare_pareto_from_algorithms_def Let_def collect_algo_scores_def read_score_from_path_def
  find_pareto_front_from_scores_def non_dominated_indices_def row_dominates_def np_allclose_def
  credit_def initial_analysis_def py_prefix_def limit_scores_def rtol_default_def
  attribution_atol_def np_array_def same_row_lengths_def ncols_def column_slice_def
  report_front_def atleast_2d_def np_vstack_def

subsection \<open>Claims about the aggregation\<close>

text \<open>
  Claim C4. Whenever the aggregation with the global analysis returns, every point of
  its global front is one of the pooled vectors, the attribution has one count per source
  of the input, and the counts add up to the number of points of the global front. It
  does return when some source has vectors and every source that has vectors keeps some
  under the limit and has rows of exactly two coordinates.
\<close>

theorem attribution_conservation:
  "(compare_pareto_from_algorithms storage file_dict True max_fe show_point_label print_point
      = Inr out \<longrightarrow>
    (\<exists>g. global out = Some g
       \<and> set (global_pf g) \<subseteq> set (concat (all_scores (local out)))
       \<and> map fst (contribution_count g) = map fst file_dict
       \<and> sum_list (map snd (contribution_count g)) = length (global_pf g)))
   \<and> ((\<exists>(algo, file_list)\<in>set file_dict. collect_algo_scores storage file_list \<noteq> [])
       \<and> (\<forall>(algo, file_list)\<in>set file_dict.
            collect_algo_scores storage file_list \<noteq> [] \<longrightarrow>
            limit_scores max_fe (collect_algo_scores storage file_list) \<noteq> [] \<and>
            (\<forall>row\<in>set (limit_scores max_fe (collect_algo_scores storage file_list)).
               length row = 2)) \<longrightarrow>
       (\<exists>result. compare_pareto_from_algorithms storage file_dict True max_fe show_point_label
                    print_point = Inr result))"
proof (intro conjI impI)
  assume "compare_pareto_from_algorithms storage file_dict True max_fe show_point_label print_point
      = Inr out"
  from compare_attribution [OF this]
  show "\<exists>g. global out = Some g
       \<and> set (global_pf g) \<subseteq> set (concat (all_scores (local out)))
       \<and> map fst (contribution_count g) = map fst file_dict
       \<and> sum_list (map snd (contribution_count g)) = length (global_pf g)"
    by blast
next
  assume "(\<exists>(algo, file_list)\<in>set file_dict. collect_algo_scores storage file_list \<noteq> [])
       \<and> (\<forall>(algo, file_list)\<in>set file_dict.
            collect_algo_scores storage file_list \<noteq> [] \<longrightarrow>
            limit_scores max_fe (collect_algo_scores storage file_list) \<noteq> [] \<and>
            (\<forall>row\<in>set (limit_scores max_fe (collect_algo_scores storage file_list)).
               length row = 2))"
  then show "\<exists>result. compare_pareto_from_algorithms storage file_dict True max_fe
      show_point_label print_point = Inr result"
    using compare_returns [of file_dict storage max_fe True show_point_label print_point]
    by blast
qed

theorem attribution_conservation_witness:
  "compare_pareto_from_algorithms
     [''a.json'' \<mapsto> [[-18, -17], [-19, -15]], ''b.json'' \<mapsto> [[-17, -19]]]
     [(''A'', [''a.json'']), (''B'', [''b.json''])] True None False False
   = Inr \<lparr>local = \<lparr>algo_fronts = [(''A'', [[-18, -17], [-19, -15]]), (''B'', [[-17, -19]])],
                     all_scores = [[[-18, -17], [-19, -15]], [[-17, -19]]],
                     algo_labels = [''A'', ''A'', ''B''], warned = []\<rparr>,
           global = Some \<lparr>global_pf = [[-18, -17], [-19, -15], [-17, -19]],
                           contribution_count = [(''A'', 2), (''B'', 1)],
                           contribution_points =
                             [(''A'', [[-18, -17], [-19, -15]]), (''B'', [[-17, -19]])]\<rparr>\<rparr>
   \<and> sum_list (map snd [(''A'', 2 :: nat), (''B'', 1)]) =
       length [[-18, -17], [-19, -15], [-17, -19 :: real]]"
  using attribution_conservation
    [of "[''a.json'' \<mapsto> [[-18, -17], [-19, -15]], ''b.json'' \<mapsto> [[-17, -19]]]"
        "[(''A'', [''a.json'']), (''B'', [''b.json''])]" None False False]
  by (simp add: evaluation)

text \<open>
  Claim C2 says that a global-front point is credited to the first pooled vector that
  matches it within the absolute tolerance \<open>1e-8\<close> on every coordinate, and that the
  test is not a relative one. The code calls \<^verbatim>\<open>np.allclose\<close> with \<open>atol=1e-8\<close> and the
  default relative tolerance: the two sources below have one vector each, both on the
  global front and \<open>1e-5\<close> apart in each coordinate, and both points are credited to
  the first source.
\<close>

theorem attribution_tolerance_counterexample:
  "compare_pareto_from_algorithms
     [''a.json'' \<mapsto> [[1, 2 + 1 / 100000]], ''b.json'' \<mapsto> [[1 + 1 / 100000, 2]]]
     [(''A'', [''a.json'']), (''B'', [''b.json''])] True None False False
   = Inr \<lparr>local = \<lparr>algo_fronts = [(''A'', [[1, 2 + 1 / 100000]]), (''B'', [[1 + 1 / 100000, 2]])],
                     all_scores = [[[1, 2 + 1 / 100000]], [[1 + 1 / 100000, 2]]],
                     algo_labels = [''A'', ''B''], warned = []\<rparr>,
           global = Some \<lparr>global_pf = [[1, 2 + 1 / 100000], [1 + 1 / 100000, 2]],
                           contribution_count = [(''A'', 2), (''B'', 0)],
                           contribution_points =
                             [(''A'', [[1, 2 + 1 / 100000], [1 + 1 / 100000, 2]]), (''B'', [])]\<rparr>\<rparr>
   \<and> \<not> spec_within_absolute_tolerance [1, 2 + 1 / 100000] [1 + 1 / 100000, 2] (1 / 100000000)
   \<and> spec_within_absolute_tolerance [1 + 1 / 100000, 2] [1 + 1 / 100000, 2] (1 / 100000000)"
  by (simp add: evaluation spec_within_absolute_tolerance_def)

text \<open>
  Claim C2, amended. For a global-front point, the loop over the pooled vectors credits
  the first pooled vector \<open>s\<close>, in pooling order, with
  \<open>|s[i] - point[i]| \<le> 1e-8 + 1e-5 * |point[i]|\<close> on every coordinate (the test of
  \<^verbatim>\<open>np.allclose\<close> with \<open>atol=1e-8\<close> and the default \<open>rtol=1e-5\<close>), and stops there; with
  no such vector nothing is credited. So a point raises the counts by at most one. The
  pooling order, when the first loop has not raised, is the order of the sources in the
  input, and within a source the order of its (limited) vectors.
\<close>

theorem attribution_first_match:
  "attribute_point point pooled attr =
     (case find (\<lambda>(s, algo).
                   list_all2 (\<lambda>x y. \<bar>x - y\<bar> \<le> 1 / 100000000 + 1 / 100000 * \<bar>y\<bar>) s point) pooled of
        None \<Rightarrow> Inr attr
      | Some (s, algo) \<Rightarrow> credit algo point attr)
   \<and> (attribute_point point pooled attr = Inr attr' \<longrightarrow>
        sum_list (map snd (fst attr')) \<le> sum_list (map snd (fst attr)) + 1)
   \<and> (local_pareto_analysis storage max_fe show_point_label file_dict initial_analysis = Inr st
        \<and> np_vstack (all_scores st) = Inr stacked \<longrightarrow>
        zip stacked (algo_labels st) =
          concat (map (\<lambda>(algo, file_list).
                        map (\<lambda>s. (s, algo))
                          (limit_scores max_fe (collect_algo_scores storage file_list)))
                   file_dict))"
proof -
  have first: "attribute_point point pooled attr =
     (case find (\<lambda>(s, algo).
                   list_all2 (\<lambda>x y. \<bar>x - y\<bar> \<le> 1 / 100000000 + 1 / 100000 * \<bar>y\<bar>) s point) pooled of
        None \<Rightarrow> Inr attr
      | Some (s, algo) \<Rightarrow> credit algo point attr)"
    using attribute_point_find [of point pooled attr]
    by (simp add: np_allclose_def attribution_atol_def rtol_default_def)
  have once: "sum_list (map snd (fst attr')) \<le> sum_list (map snd (fst attr)) + 1"
    if run: "attribute_point point pooled attr = Inr attr'"
  proof (cases rule: attribute_point_cases [of pooled point attr])
    case unmatched
    with run show ?thesis by simp
  next
    case (matched s algo)
    with run have "credit algo point attr = Inr attr'" by simp
    from credit_effect(3) [OF this] show ?thesis by simp
  qed
  have order: "zip stacked (algo_labels st) =
          concat (map (\<lambda>(algo, file_list).
                        map (\<lambda>s. (s, algo))
                          (limit_scores max_fe (collect_algo_scores storage file_list)))
                   file_dict)"
    if st: "local_pareto_analysis storage max_fe show_point_label file_dict initial_analysis = Inr st"
      and stack: "np_vstack (all_scores st) = Inr stacked"
  proof -
    from np_vstack_Inr [OF stack local_arrays_nonempty [OF st]]
    have "stacked = concat (all_scores st)" .
    with local_pooled_order [OF st] show ?thesis by simp
  qed
  from first once order show ?thesis by blast
qed

theorem attribution_first_match_witness:
  "attribute_point [1 + 1 / 100000, 2]
     [([1, 2 + 1 / 100000], ''A''), ([1 + 1 / 100000, 2], ''B'')]
     ([(''A'', 1), (''B'', 0)], [(''A'', [[1, 2 + 1 / 100000]]), (''B'', [])])
   = Inr ([(''A'', 2), (''B'', 0)], [(''A'', [[1, 2 + 1 / 100000], [1 + 1 / 100000, 2]]), (''B'', [])])
   \<and> local_pareto_analysis
         [''a.json'' \<mapsto> [[1, 2 + 1 / 100000]], ''b.json'' \<mapsto> [[1 + 1 / 100000, 2]]] None False
         [(''A'', [''a.json'']), (''B'', [''b.json''])] initial_analysis
       = Inr \<lparr>algo_fronts = [(''A'', [[1, 2 + 1 / 100000]]), (''B'', [[1 + 1 / 100000, 2]])],
              all_scores = [[[1, 2 + 1 / 100000]], [[1 + 1 / 100000, 2]]],
              algo_labels = [''A'', ''B''], warned = []\<rparr>
   \<and> np_vstack [[[1, 2 + 1 / 100000]], [[1 + 1 / 100000, 2]]]
       = Inr [[1, 2 + 1 / 100000], [1 + 1 / 100000, 2]]
   \<and> zip [[1, 2 + 1 / 100000], [1 + 1 / 100000, 2]] [''A'', ''B''] =
       concat (map (\<lambda>(algo, file_list).
                     map (\<lambda>s. (s, algo))
                       (limit_scores None
                          (collect_algo_scores
                             [''a.json'' \<mapsto> [[1, 2 + 1 / 100000]],
                              ''b.json'' \<mapsto> [[1 + 1 / 100000, 2]]] file_list)))
                [(''A'', [''a.json'']), (''B'', [''b.json''])])"
proof -
  let ?S = "[''a.json'' \<mapsto> [[1, 2 + 1 / 100000 :: real]], ''b.json'' \<mapsto> [[1 + 1 / 100000, 2]]]"
  let ?D = "[(''A'', [''a.json'']), (''B'', [''b.json''])]"
  let ?st = "\<lparr>algo_fronts = [(''A'', [[1, 2 + 1 / 100000 :: real]]), (''B'', [[1 + 1 / 100000, 2]])],
              all_scores = [[[1, 2 + 1 / 100000]], [[1 + 1 / 100000, 2]]],
              algo_labels = [''A'', ''B''], warned = []\<rparr>"
  have st: "local_pareto_analysis ?S None False ?D initial_analysis = Inr ?st"
    by (simp add: evaluation)
  have stack: "np_vstack [[[1, 2 + 1 / 100000 :: real]], [[1 + 1 / 100000, 2]]]
       = Inr [[1, 2 + 1 / 100000], [1 + 1 / 100000, 2]]"
    by (simp add: evaluation)
  then have stack': "np_vstack (all_scores ?st) = Inr [[1, 2 + 1 / 100000], [1 + 1 / 100000, 2]]"
    by simp
  note inst = attribution_first_match
    [of "[1 + 1 / 100000, 2]" "[([1, 2 + 1 / 100000], ''A''), ([1 + 1 / 100000, 2], ''B'')]"
        "([(''A'', 1), (''B'', 0)], [(''A'', [[1, 2 + 1 / 100000]]), (''B'', [])])"
        _ ?S None False ?D ?st "[[1, 2 + 1 / 100000], [1 + 1 / 100000, 2]]"]
  from inst have match: "attribute_point [1 + 1 / 100000, 2]
     [([1, 2 + 1 / 100000], ''A''), ([1 + 1 / 100000, 2], ''B'')]
     ([(''A'', 1), (''B'', 0)], [(''A'', [[1, 2 + 1 / 100000]]), (''B'', [])])
   = Inr ([(''A'', 2), (''B'', 0)], [(''A'', [[1, 2 + 1 / 100000], [1 + 1 / 100000, 2]]), (''B'', [])])"
    by (simp add: credit_def)
  from inst st stack' have "zip [[1, 2 + 1 / 100000], [1 + 1 / 100000, 2]] (algo_labels ?st) =
       concat (map (\<lambda>(algo, file_list).
                     map (\<lambda>s. (s, algo)) (limit_scores None (collect_algo_scores ?S file_list))) ?D)"
    by blast
  then have order: "zip [[1, 2 + 1 / 100000], [1 + 1 / 100000, 2]] [''A'', ''B''] =
       concat (map (\<lambda>(algo, file_list).
                     map (\<lambda>s. (s, algo)) (limit_scores None (collect_algo_scores ?S file_list))) ?D)"
    by (simp only: local_analysis.simps)
  show ?thesis
    by (intro conjI) (fact match, fact st, fact stack, fact order)
qed

lemma compare_global_only:
  "compare_pareto_from_algorithms storage file_dict show_global max_fe show_point_label print_point
     = Inr out \<Longrightarrow> global out = Some g \<Longrightarrow> show_global"
  by (auto simp: compare_pareto_from_algorithms_def Let_def split: sum.splits if_splits prod.splits)

text \<open>
  Claim C5 says that a source with zero vectors is left out of all outputs, the
  attribution mappings included. The code builds \<open>contribution_count\<close> and
  \<open>contribution_points\<close> from all keys of \<open>file_dict\<close>: the skipped source \<open>A\<close> below is
  in both mappings, with the count 0 and no points.
\<close>

theorem skipped_source_counterexample:
  "collect_algo_scores [''b.json'' \<mapsto> [[1, 2]]] [''a.json''] = []
   \<and> compare_pareto_from_algorithms [''b.json'' \<mapsto> [[1, 2]]]
       [(''A'', [''a.json'']), (''B'', [''b.json''])] True None False False
     = Inr \<lparr>local = \<lparr>algo_fronts = [(''B'', [[1, 2]])], all_scores = [[[1, 2]]],
                       algo_labels = [''B''], warned = [''A'']\<rparr>,
             global = Some \<lparr>global_pf = [[1, 2]],
                             contribution_count = [(''A'', 0), (''B'', 1)],
                             contribution_points = [(''A'', []), (''B'', [[1, 2]])]\<rparr>\<rparr>"
  by (simp add: evaluation)

text \<open>
  Claim C5, amended. A source whose concatenated sequence is empty (before any limit is
  applied) is skipped with a warning and is no failure: the aggregation returns when
  some source has vectors and every source that has vectors keeps some under the limit
  and has rows of exactly two coordinates. Whenever the aggregation returns, the skipped
  source has a warning, is absent from the per-source fronts and has contributed no
  pooled vector; and it is still a key of the attribution mappings, with the count 0 and
  no points.
\<close>

theorem empty_source_skipped:
  assumes "distinct (map fst file_dict)"
    and "(algo, file_list) \<in> set file_dict"
    and "collect_algo_scores storage file_list = []"
  shows "(compare_pareto_from_algorithms storage file_dict show_global max_fe show_point_label
            print_point = Inr out \<longrightarrow>
          algo \<in> set (warned (local out))
          \<and> map_of (algo_fronts (local out)) algo = None
          \<and> algo \<notin> set (algo_labels (local out))
          \<and> (\<forall>g. global out = Some g \<longrightarrow>
                map_of (contribution_count g) algo = Some 0
                \<and> map_of (contribution_points g) algo = Some []))
       \<and> ((\<exists>(other, files)\<in>set file_dict. collect_algo_scores storage files \<noteq> [])
           \<and> (\<forall>(other, files)\<in>set file_dict.
                collect_algo_scores storage files \<noteq> [] \<longrightarrow>
                limit_scores max_fe (collect_algo_scores storage files) \<noteq> [] \<and>
                (\<forall>row\<in>set (limit_scores max_fe (collect_algo_scores storage files)).
                   length row = 2)) \<longrightarrow>
           (\<exists>result. compare_pareto_from_algorithms storage file_dict show_global max_fe
                        show_point_label print_point = Inr result))"
proof (intro conjI impI allI)
  assume run: "compare_pareto_from_algorithms storage file_dict show_global max_fe
      show_point_label print_point = Inr out"
  note st = compare_local [OF run]
  show "algo \<in> set (warned (local out))"
    unfolding local_warned [OF st] using assms(2,3) by (force simp: initial_analysis_def)
  show "map_of (algo_fronts (local out)) algo = None"
    using local_fronts_lookup [OF st assms(1,2)] assms(3) by (simp add: initial_analysis_def)
  show label: "algo \<notin> set (algo_labels (local out))"
    by (rule local_labels_skipped [OF st assms])
  fix g
  assume g: "global out = Some g"
  from compare_global_only [OF run g] run
  have "compare_pareto_from_algorithms storage file_dict True max_fe show_point_label print_point
      = Inr out" by simp
  from compare_global_result [OF this] g obtain st' stacked where
    out: "local out = st'"
    and attr: "attribute_points (global_pf g) (zip stacked (algo_labels st'))
           (map (\<lambda>algo. (algo, 0)) (map fst file_dict), map (\<lambda>algo. (algo, [])) (map fst file_dict))
          = Inr (contribution_count g, contribution_points g)"
    by auto
  from label out have "algo \<notin> snd ` set (zip stacked (algo_labels st'))"
    by (auto dest: set_zip_rightD)
  from attribute_points_untouched [OF attr this]
  have "map_of (contribution_count g) algo = map_of (map (\<lambda>algo. (algo, 0 :: nat)) (map fst file_dict)) algo"
    and "map_of (contribution_points g) algo =
         map_of (map (\<lambda>algo. (algo, [] :: scores)) (map fst file_dict)) algo"
    by simp_all
  moreover from assms(2) have "algo \<in> set (map fst file_dict)" by force
  ultimately show "map_of (contribution_count g) algo = Some 0"
    and "map_of (contribution_points g) algo = Some []"
    by (simp_all only: map_of_constant)
next
  assume "(\<exists>(other, files)\<in>set file_dict. collect_algo_scores storage files \<noteq> [])
           \<and> (\<forall>(other, files)\<in>set file_dict.
                collect_algo_scores storage files \<noteq> [] \<longrightarrow>
                limit_scores max_fe (collect_algo_scores storage files) \<noteq> [] \<and>
                (\<forall>row\<in>set (limit_scores max_fe (collect_algo_scores storage files)).
                   length row = 2))"
  then show "\<exists>result. compare_pareto_from_algorithms storage file_dict show_global max_fe
      show_point_label print_point = Inr result"
    using compare_returns [of file_dict storage max_fe show_global show_point_label print_point]
    by blast
qed

theorem empty_source_skipped_witness:
  "distinct (map fst [(''A'', [''a.json'']), (''B'', [''b.json''])])
   \<and> collect_algo_scores [''b.json'' \<mapsto> [[1, 2]]] [''a.json''] = []
   \<and> compare_pareto_from_algorithms [''b.json'' \<mapsto> [[1, 2]]]
       [(''A'', [''a.json'']), (''B'', [''b.json''])] True (Some 5) False False
     = Inr \<lparr>local = \<lparr>algo_fronts = [(''B'', [[1, 2]])], all_scores = [[[1, 2]]],
                       algo_labels = [''B''], warned = [''A'']\<rparr>,
             global = Some \<lparr>global_pf = [[1, 2]],
                             contribution_count = [(''A'', 0), (''B'', 1)],
                             contribution_points = [(''A'', []), (''B'', [[1, 2]])]\<rparr>\<rparr>
   \<and> map_of [(''A'', 0 :: nat), (''B'', 1)] ''A'' = Some 0
   \<and> map_of [(''B'', [[1, 2 :: real]])] ''A'' = None"
proof -
  let ?S = "[''b.json'' \<mapsto> [[1, 2 :: real]]]"
  let ?D = "[(''A'', [''a.json'']), (''B'', [''b.json''])]"
  let ?g = "\<lparr>global_pf = [[1, 2 :: real]], contribution_count = [(''A'', 0), (''B'', 1)],
            contribution_points = [(''A'', []), (''B'', [[1, 2]])]\<rparr>"
  let ?out = "\<lparr>local = \<lparr>algo_fronts = [(''B'', [[1, 2 :: real]])], all_scores = [[[1, 2]]],
                       algo_labels = [''B''], warned = [''A'']\<rparr>,
             global = Some ?g\<rparr>"
  have d: "distinct (map fst ?D)" by simp
  have m: "(''A'', [''a.json'']) \<in> set ?D" by simp
  have e: "collect_algo_scores ?S [''a.json''] = []"
    by (simp add: collect_algo_scores_def read_score_from_path_def)
  have r: "compare_pareto_from_algorithms ?S ?D True (Some 5) False False = Inr ?out"
    by (simp add: evaluation)
  from empty_source_skipped [OF d m e, of True "Some 5" False False ?out] r
  have "map_of (algo_fronts (local ?out)) ''A'' = None"
    and "map_of (contribution_count ?g) ''A'' = Some 0"
    by simp_all
  then have "map_of [(''B'', [[1, 2 :: real]])] ''A'' = None"
    and "map_of [(''A'', 0 :: nat), (''B'', 1)] ''A'' = Some 0"
    by simp_all
  with d e r show ?thesis by blast
qed

subsection \<open>The limit and the test for an empty source\<close>

text \<open>
  The path of a source that has no vectors after concatenation: when that holds for
  every source, line 94 raises its \<open>ValueError\<close>, whatever the limit.
\<close>

lemma no_valid_data_raised:
  assumes "\<forall>(algo, file_list)\<in>set file_dict. collect_algo_scores storage file_list = []"
  shows "compare_pareto_from_algorithms storage file_dict show_global max_fe show_point_label
           print_point = Inl no_valid_data"
proof -
  from assms have wf: "\<forall>(algo, file_list)\<in>set file_dict.
      collect_algo_scores storage file_list \<noteq> [] \<longrightarrow>
      limit_scores max_fe (collect_algo_scores storage file_list) \<noteq> [] \<and>
      (\<forall>row\<in>set (limit_scores max_fe (collect_algo_scores storage file_list)). length row = 2)"
    by auto
  from local_returns [OF wf] obtain st where
    st: "local_pareto_analysis storage max_fe show_point_label file_dict initial_analysis = Inr st"
    by blast
  from assms have "filter (\<lambda>(algo, file_list). collect_algo_scores storage file_list \<noteq> [])
      file_dict = []"
    by (auto simp: filter_empty_conv)
  with local_all_scores [OF st] have "all_scores st = []"
    by (simp add: initial_analysis_def)
  with st show ?thesis by (rule compare_empty)
qed

text \<open>
  A source that has vectors but loses all of them to the limit is not skipped: its pass
  of the first loop raises \<open>IndexError\<close> (line 68 slices the array of shape \<open>(0,)\<close> as
  \<open>pareto_front[:, 0]\<close>), and so does the function.
\<close>

lemma emptied_source_raises:
  assumes "collect_algo_scores storage file_list \<noteq> []"
    and "limit_scores max_fe (collect_algo_scores storage file_list) = []"
  shows "local_pareto_analysis storage max_fe show_point_label ((algo, file_list) # rest) st
           = Inl IndexError"
  unfolding local_step [OF assms(1)] assms(2)
  by (simp add: np_array_def same_row_lengths_def find_pareto_front_from_scores_def
      non_dominated_indices_def report_front_def column_slice_def ncols_def)

text \<open>
  Claim C7. When no source has a vector left after concatenation and truncation, the
  aggregation is to fail with the EmptyInput error, the \<open>ValueError\<close> of line 94. With
  one source of one vector and the limit 0 no vector is left, and the code raises
  \<open>IndexError\<close> instead.
\<close>

theorem limit_zero_raises_index_error:
  "collect_algo_scores [''a.json'' \<mapsto> [[1, 2]]] [''a.json''] = [[1, 2]]
   \<and> limit_scores (Some 0) (collect_algo_scores [''a.json'' \<mapsto> [[1, 2]]] [''a.json'']) = []
   \<and> compare_pareto_from_algorithms [''a.json'' \<mapsto> [[1, 2]]] [(''A'', [''a.json''])]
       True (Some 0) False False = Inl IndexError
   \<and> compare_pareto_from_algorithms [''a.json'' \<mapsto> [[1, 2]]] [(''A'', [''a.json''])]
       True (Some 0) False False \<noteq> Inl no_valid_data"
  by (simp add: evaluation no_valid_data_def)

text \<open>
  For a limit \<open>k \<ge> 1\<close> and a source with more than \<open>k\<close> entries, two runs that return,
  one with the limit \<open>k\<close> and one without a limit on a source holding just the first
  \<open>k\<close> entries, record the same local front for the source: the front of that prefix.
\<close>

lemma limit_is_prefix:
  assumes "distinct (map fst file_dict)" and "(algo, file_list) \<in> set file_dict"
    and "1 \<le> k" and "k < int (length (collect_algo_scores storage file_list))"
    and "distinct (map fst file_dict')" and "(algo, file_list') \<in> set file_dict'"
    and "collect_algo_scores storage' file_list' =
           take (nat k) (collect_algo_scores storage file_list)"
    and "compare_pareto_from_algorithms storage file_dict show_global (Some k) show_point_label
           print_point = Inr out"
    and "compare_pareto_from_algorithms storage' file_dict' show_global' None show_point_label'
           print_point' = Inr out'"
  shows "map_of (algo_fronts (local out)) algo = map_of (algo_fronts (local out')) algo
       \<and> map_of (algo_fronts (local out)) algo =
           Some (find_pareto_front_from_scores (take (nat k) (collect_algo_scores storage file_list)))"
proof -
  let ?xs = "collect_algo_scores storage file_list"
  from assms(3,4) have ne: "?xs \<noteq> []" by auto
  from assms(3,4) have pre: "take (nat k) ?xs \<noteq> []" by auto
  have lim: "limit_scores (Some k) ?xs = take (nat k) ?xs"
    using assms(3) by (simp add: limit_scores_def py_prefix_def)
  have "map_of (algo_fronts (local out)) algo = Some (find_pareto_front_from_scores (take (nat k) ?xs))"
    using local_fronts_lookup [OF compare_local [OF assms(8)] assms(1,2)] ne lim
    by (simp add: initial_analysis_def)
  moreover have "map_of (algo_fronts (local out')) algo =
      Some (find_pareto_front_from_scores (take (nat k) ?xs))"
    using local_fronts_lookup [OF compare_local [OF assms(9)] assms(5,6)] pre assms(7)
    by (simp add: initial_analysis_def limit_scores_def)
  ultimately show ?thesis by simp
qed

text \<open>
  Claim C8. A run with the limit \<open>k\<close> is to give a source with more than \<open>k\<close> entries
  the local front that a run without a limit gives it from its first \<open>k\<close> entries
  alone. For \<open>k = 0\<close> the run on the first 0 entries of source \<open>A\<close> skips \<open>A\<close> and
  returns the fronts of the other source, and the run with the limit 0 raises
  \<open>IndexError\<close> in the pass of \<open>A\<close>.
\<close>

theorem limit_zero_prefix_divergence:
  "0 < length (collect_algo_scores [''a.json'' \<mapsto> [[1, 2]], ''b.json'' \<mapsto> [[3, 4]]] [''a.json''])
   \<and> collect_algo_scores [''a.json'' \<mapsto> [], ''b.json'' \<mapsto> [[3, 4]]] [''a.json'']
       = take 0 (collect_algo_scores [''a.json'' \<mapsto> [[1, 2]], ''b.json'' \<mapsto> [[3, 4]]] [''a.json''])
   \<and> compare_pareto_from_algorithms [''a.json'' \<mapsto> [], ''b.json'' \<mapsto> [[3, 4]]]
       [(''A'', [''a.json'']), (''B'', [''b.json''])] True None False False
     = Inr \<lparr>local = \<lparr>algo_fronts = [(''B'', [[3, 4]])], all_scores = [[[3, 4]]],
                       algo_labels = [''B''], warned = [''A'']\<rparr>,
             global = Some \<lparr>global_pf = [[3, 4]],
                             contribution_count = [(''A'', 0), (''B'', 1)],
                             contribution_points = [(''A'', []), (''B'', [[3, 4]])]\<rparr>\<rparr>
   \<and> compare_pareto_from_algorithms [''a.json'' \<mapsto> [[1, 2]], ''b.json'' \<mapsto> [[3, 4]]]
       [(''A'', [''a.json'']), (''B'', [''b.json''])] True (Some 0) False False
     = Inl IndexError"
  by (simp add: evaluation)

end
